theory Spec2Isabelle
  imports Complex_Main
begin

section \<open>Python values used by benchmark.py\<close>

subsection \<open>Floats: binary64 with round-to-nearest, ties to even\<close>

text \<open>
  A Python float is an IEEE 754 binary64 value. A finite float is kept as its sign bit and
  its exact magnitude (a rational), so that \<open>-0.0\<close> and \<open>0.0\<close> are different values.
  All arithmetic is done exactly on rationals and rounded once, as the hardware does.
\<close>

datatype pyfloat = Finite bool rat | Infinity bool | NaN

definition pow_int :: "rat \<Rightarrow> int \<Rightarrow> rat" where
  "pow_int b e = (if 0 \<le> e then b ^ nat e else 1 / b ^ nat (- e))"

text \<open>Number of digits of a positive integer in base \<open>b\<close>.\<close>

function digit_count :: "int \<Rightarrow> int \<Rightarrow> int" where
  "digit_count b a = (if a \<le> 0 \<or> b \<le> 1 then 0 else 1 + digit_count b (a div b))"
  by pat_completeness auto
termination
  by (relation "measure (\<lambda>(b, a). nat a)") (auto simp: int_div_less_self)

text \<open>For \<open>q > 0\<close>: the integer \<open>e\<close> with \<open>b ^ e \<le> q < b ^ (e + 1)\<close>.\<close>

definition floor_log :: "int \<Rightarrow> rat \<Rightarrow> int" where
  "floor_log b q =
     (let (n, d) = quotient_of q;
          e = digit_count b n - digit_count b d
      in if pow_int (of_int b) e \<le> q then e else e - 1)"

definition round_half_even :: "rat \<Rightarrow> int" where
  "round_half_even q =
     (let f = \<lfloor>q\<rfloor>; r = q - of_int f
      in if r < 1 / 2 then f else if 1 / 2 < r then f + 1 else if even f then f else f + 1)"

text \<open>
  Rounding of an exact magnitude \<open>q \<ge> 0\<close> to binary64: 53 significant bits, the smallest
  unit \<open>2 ^ -1074\<close>, and infinity once the rounded value reaches \<open>2 ^ 1024\<close>.
\<close>

definition to_double :: "bool \<Rightarrow> rat \<Rightarrow> pyfloat" where
  "to_double s q =
     (if q = 0 then Finite s 0
      else let u = max (floor_log 2 q - 52) (- 1074);
               r = of_int (round_half_even (q / pow_int 2 u)) * pow_int 2 u
           in if 1024 \<le> floor_log 2 r then Infinity s else Finite s r)"

definition float_of_rat :: "rat \<Rightarrow> pyfloat" where
  "float_of_rat q = to_double (q < 0) \<bar>q\<bar>"

text \<open>
  The exceptions of the module: Python's own, \<open>OperationalError\<close> for an unreachable store,
  \<open>ProgrammingError\<close> for a statement the database refuses (an unknown column), and
  \<open>OperationError\<close> for whatever else one invocation of a worker raises on its own (no such
  row, a violated constraint).

  \<open>a / b\<close> on floats (\<open>float_div\<close> of CPython): a zero divisor raises before anything is
  computed, whatever the dividend; otherwise the IEEE quotient.
\<close>

datatype error =
    KeyError string
  | ZeroDivisionError
  | TypeError
  | OverflowError
  | OperationalError
  | ProgrammingError
  | OperationError

definition float_truediv :: "pyfloat \<Rightarrow> pyfloat \<Rightarrow> error + pyfloat" where
  "float_truediv a b =
     (case b of
        Finite t y \<Rightarrow>
          (if y = 0 then Inl ZeroDivisionError
           else (case a of
                   Finite s x \<Rightarrow> Inr (to_double (s \<noteq> t) (x / y))
                 | Infinity s \<Rightarrow> Inr (Infinity (s \<noteq> t))
                 | NaN \<Rightarrow> Inr NaN))
      | Infinity t \<Rightarrow>
          (case a of
             Finite s x \<Rightarrow> Inr (Finite (s \<noteq> t) 0)
           | Infinity s \<Rightarrow> Inr NaN
           | NaN \<Rightarrow> Inr NaN)
      | NaN \<Rightarrow> Inr NaN)"

text \<open>\<open>a - b\<close> on floats: never raises.\<close>

definition float_sub :: "pyfloat \<Rightarrow> pyfloat \<Rightarrow> pyfloat" where
  "float_sub a b =
     (case (a, b) of
        (Finite s x, Finite t y) \<Rightarrow>
          (let d = (if s then - x else x) - (if t then - y else y)
           in if d = 0 then Finite (s \<and> \<not> t) 0 else to_double (d < 0) \<bar>d\<bar>)
      | (Finite s x, Infinity t) \<Rightarrow> Infinity (\<not> t)
      | (Infinity s, Finite t y) \<Rightarrow> Infinity s
      | (Infinity s, Infinity t) \<Rightarrow> (if s = t then NaN else Infinity s)
      | _ \<Rightarrow> NaN)"

text \<open>
  \<open>round(x, ndigits)\<close> on a float: the exact value is rounded half-even to \<open>ndigits\<close>
  decimal places and the decimal result is read back as the nearest float. Infinities and
  NaN round to themselves. For \<open>ndigits = 2\<close> the result never exceeds the float range,
  since every float from \<open>2 ^ 53\<close> on is an integer and rounds to itself.
\<close>

definition float_round :: "pyfloat \<Rightarrow> int \<Rightarrow> pyfloat" where
  "float_round x ndigits =
     (case x of
        Finite s q \<Rightarrow>
          (if 323 < ndigits then x
           else if ndigits < - 308 then Finite s 0
           else to_double s
                  (of_int (round_half_even (q * pow_int 10 ndigits)) / pow_int 10 ndigits))
      | _ \<Rightarrow> x)"

text \<open>
  \<open>str(x)\<close> on a float is \<open>repr(x)\<close>: the shortest decimal digit string that reads back as
  \<open>x\<close> (the closest one when several have that length), printed in fixed notation when
  the decimal point position is in \<open>-3 .. 16\<close> and in exponent notation otherwise.
\<close>

function dec_digits :: "int \<Rightarrow> string" where
  "dec_digits n =
     (if n < 10 then [''0123456789'' ! nat n]
      else dec_digits (n div 10) @ [''0123456789'' ! nat (n mod 10)])"
  by pat_completeness auto
termination
  by (relation "measure nat") auto

text \<open>
  \<open>shortest_search k n q e\<close> tries \<open>n, n + 1, ...\<close> significant digits (\<open>k\<close> more tries
  before settling for the nearest decimal) and returns \<open>(c, j)\<close>, the decimal \<open>c * 10 ^ j\<close>.
\<close>

fun shortest_search :: "nat \<Rightarrow> int \<Rightarrow> rat \<Rightarrow> int \<Rightarrow> int \<times> int" where
  "shortest_search 0 n q e = (round_half_even (q / pow_int 10 (e + 1 - n)), e + 1 - n)"
| "shortest_search (Suc k) n q e =
     (let j = e + 1 - n; t = q / pow_int 10 j; lo = \<lfloor>t\<rfloor>; hi = lo + 1;
          ok_lo = (to_double False (of_int lo * pow_int 10 j) = Finite False q);
          ok_hi = (to_double False (of_int hi * pow_int 10 j) = Finite False q)
      in if ok_lo \<and> ok_hi then (round_half_even t, j)
         else if ok_lo then (lo, j)
         else if ok_hi then (hi, j)
         else shortest_search k (n + 1) q e)"

text \<open>The digit string without trailing zeros, and the position of the decimal point.\<close>

definition shortest_repr :: "rat \<Rightarrow> string \<times> int" where
  "shortest_repr q =
     (let (c, j) = shortest_search 16 1 q (floor_log 10 q); ds = dec_digits c
      in (rev (dropWhile (\<lambda>d. d = CHR ''0'') (rev ds)), int (length ds) + j))"

definition exponent_str :: "int \<Rightarrow> string" where
  "exponent_str e =
     (if e < 0 then ''-'' else ''+'') @
     (let d = dec_digits \<bar>e\<bar> in if length d < 2 then CHR ''0'' # d else d)"

definition float_repr :: "pyfloat \<Rightarrow> string" where
  "float_repr x =
     (case x of
        NaN \<Rightarrow> ''nan''
      | Infinity s \<Rightarrow> (if s then ''-inf'' else ''inf'')
      | Finite s q \<Rightarrow>
          (if s then ''-'' else []) @
          (if q = 0 then ''0.0''
           else let (ds, decpt) = shortest_repr q; n = int (length ds)
                in if decpt \<le> - 4 \<or> 16 < decpt
                   then (if n = 1 then ds else take 1 ds @ ''.'' @ drop 1 ds) @ ''e'' @
                        exponent_str (decpt - 1)
                   else if decpt \<le> 0 then ''0.'' @ replicate (nat (- decpt)) (CHR ''0'') @ ds
                   else if decpt < n then take (nat decpt) ds @ ''.'' @ drop (nat decpt) ds
                   else ds @ replicate (nat (decpt - n)) (CHR ''0'') @ ''.0''))"

subsection \<open>Values, dictionaries and true division\<close>

text \<open>The eight benchmark functions of the module, as the values the catalog stores.\<close>

datatype func =
    RunSqlalchemySelect
  | RunPsycopgSelect
  | RunSqlalchemyUpdate
  | RunPsycopgUpdate
  | RunSqlalchemyAddAll
  | PsycopgExecutemany
  | RunSqlalchemyConcurrentAdd
  | PsycopgConcurrentAdd

datatype pyval = PyNone | PyStr string | PyInt int | PyFloat pyfloat | PyFunc func

type_synonym pydict = "string \<rightharpoonup> pyval"

text \<open>\<open>d[k]\<close>: a missing key raises \<open>KeyError\<close>.\<close>

definition getitem :: "pydict \<Rightarrow> string \<Rightarrow> error + pyval" where
  "getitem d k = (case d k of None \<Rightarrow> Inl (KeyError k) | Some v \<Rightarrow> Inr v)"

text \<open>An int operand of a float division is converted first; too large an int raises.\<close>

definition int_to_float :: "int \<Rightarrow> error + pyfloat" where
  "int_to_float n =
     (case to_double (n < 0) (of_int \<bar>n\<bar>) of
        Infinity s \<Rightarrow> Inl OverflowError
      | x \<Rightarrow> Inr x)"

text \<open>int / int is the correctly rounded quotient, with the sign of a zero result kept.\<close>

definition int_truediv :: "int \<Rightarrow> int \<Rightarrow> error + pyfloat" where
  "int_truediv a b =
     (if b = 0 then Inl ZeroDivisionError
      else (case to_double ((a < 0) \<noteq> (b < 0)) \<bar>of_int a / of_int b\<bar> of
              Infinity s \<Rightarrow> Inl OverflowError
            | x \<Rightarrow> Inr x))"

text \<open>\<open>v / w\<close>: defined on numbers, \<open>TypeError\<close> on anything else; the result is a float.\<close>

definition truediv :: "pyval \<Rightarrow> pyval \<Rightarrow> error + pyfloat" where
  "truediv v w =
     (case (v, w) of
        (PyFloat a, PyFloat b) \<Rightarrow> float_truediv a b
      | (PyInt a, PyInt b) \<Rightarrow> int_truediv a b
      | (PyInt a, PyFloat b) \<Rightarrow>
          (case int_to_float a of Inl e \<Rightarrow> Inl e | Inr a' \<Rightarrow> float_truediv a' b)
      | (PyFloat a, PyInt b) \<Rightarrow>
          (case int_to_float b of Inl e \<Rightarrow> Inl e | Inr b' \<Rightarrow> float_truediv a b')
      | _ \<Rightarrow> Inl TypeError)"

section \<open>The reporter: print_results\<close>

text \<open>
  A list of dictionaries is a list of references to dictionary objects: the same object may
  sit at several indices, and a write through one index is seen through the others. The
  heap gives the dictionary each reference points to.
\<close>

type_synonym ref = nat

type_synonym heap = "ref \<Rightarrow> pydict"

text \<open>
  Line 298, right-hand side: \<open>str(round((method["duration"] / prev), 2)) + "x"\<close>.
\<close>

definition slowness_of :: "pyval \<Rightarrow> pyval \<Rightarrow> error + pyval" where
  "slowness_of d prev =
     (case truediv d prev of
        Inl e \<Rightarrow> Inl e
      | Inr r \<Rightarrow> Inr (PyStr (float_repr (float_round r 2) @ ''x'')))"

text \<open>
  One iteration of the loop of lines 294-298 at index \<open>idx\<close> (always below the length of
  the list): even indices are skipped; at an odd index the previous entry's duration is read
  first, then the entry's own, and the slowness of the object at \<open>idx\<close> is overwritten.
\<close>

definition slowness_step :: "ref list \<Rightarrow> nat \<Rightarrow> heap \<Rightarrow> error + heap" where
  "slowness_step results idx h =
     (if idx mod 2 = 0 then Inr h
      else (case getitem (h (results ! (idx - 1))) ''duration'' of
              Inl e \<Rightarrow> Inl e
            | Inr prev \<Rightarrow>
                (case getitem (h (results ! idx)) ''duration'' of
                   Inl e \<Rightarrow> Inl e
                 | Inr d \<Rightarrow>
                     (case slowness_of d prev of
                        Inl e \<Rightarrow> Inl e
                      | Inr s \<Rightarrow>
                          Inr (h(results ! idx := (h (results ! idx))(''slowness'' \<mapsto> s)))))))"

text \<open>
  The loop: \<open>k\<close> iterations are left, the next index is \<open>idx\<close>. The objects are mutated in
  place, so an exception leaves the objects updated so far as they are.
\<close>

fun slowness_loop :: "nat \<Rightarrow> nat \<Rightarrow> ref list \<Rightarrow> heap \<Rightarrow> error option \<times> heap" where
  "slowness_loop 0 idx results h = (None, h)"
| "slowness_loop (Suc k) idx results h =
     (case slowness_step results idx h of
        Inl e \<Rightarrow> (Some e, h)
      | Inr h' \<Rightarrow> slowness_loop k (Suc idx) results h')"

definition compute_slowness :: "ref list \<Rightarrow> heap \<Rightarrow> error option \<times> heap" where
  "compute_slowness results h = slowness_loop (length results) 0 results h"

text \<open>Line 300: one row \<open>[x["name"], x["duration"], x["slowness"]]\<close> per entry.\<close>

definition row_of :: "pydict \<Rightarrow> error + pyval list" where
  "row_of x =
     (case getitem x ''name'' of
        Inl e \<Rightarrow> Inl e
      | Inr n \<Rightarrow>
          (case getitem x ''duration'' of
             Inl e \<Rightarrow> Inl e
           | Inr d \<Rightarrow>
               (case getitem x ''slowness'' of
                  Inl e \<Rightarrow> Inl e
                | Inr s \<Rightarrow> Inr [n, d, s])))"

fun rows_of :: "pydict list \<Rightarrow> error + pyval list list" where
  "rows_of [] = Inr []"
| "rows_of (x # xs) =
     (case row_of x of
        Inl e \<Rightarrow> Inl e
      | Inr r \<Rightarrow> (case rows_of xs of Inl e \<Rightarrow> Inl e | Inr rs \<Rightarrow> Inr (r # rs)))"

text \<open>
  What \<open>print(tabulate(data, headers=..., tablefmt="pretty", stralign="left"))\<close> writes:
  the table is kept as its headers and its rows; the layout is tabulate's.
\<close>

record display =
  headers :: "string list"
  rows :: "pyval list list"

definition tabulate :: "pyval list list \<Rightarrow> display" where
  "tabulate data = \<lparr>headers = [''Method'', ''Duration'', ''Slowness''], rows = data\<rparr>"

text \<open>
  \<open>print_results results\<close> on a heap, with the output written so far: the exception raised
  (if any), the heap as the call leaves it, and the output afterwards.
\<close>

definition print_results ::
  "ref list \<Rightarrow> heap \<Rightarrow> display list \<Rightarrow> error option \<times> heap \<times> display list" where
  "print_results results h out =
     (case compute_slowness results h of
        (Some e, h') \<Rightarrow> (Some e, h', out)
      | (None, h') \<Rightarrow>
          (case rows_of (map h' results) of
             Inl e \<Rightarrow> (Some e, h', out)
           | Inr data \<Rightarrow> (None, h', out @ [tabulate data])))"

subsection \<open>Shapes of entries used in the statements\<close>

text \<open>
  An entry as \<open>run_benchmark\<close> hands it to the reporter carries a name, a float duration
  (the value \<open>benchmark_worker\<close> returned) and a slowness (the catalog's placeholder).
\<close>

definition has_float_duration :: "pydict \<Rightarrow> bool" where
  "has_float_duration d = (case d ''duration'' of Some (PyFloat t) \<Rightarrow> True | _ \<Rightarrow> False)"

definition zero_duration :: "pydict \<Rightarrow> bool" where
  "zero_duration d = (case d ''duration'' of Some (PyFloat (Finite s q)) \<Rightarrow> q = 0 | _ \<Rightarrow> False)"

definition well_formed :: "pydict \<Rightarrow> bool" where
  "well_formed d = (d ''name'' \<noteq> None \<and> has_float_duration d \<and> d ''slowness'' \<noteq> None)"

definition measurement :: "string \<Rightarrow> pyfloat \<Rightarrow> pydict" where
  "measurement n t = [''name'' \<mapsto> PyStr n, ''duration'' \<mapsto> PyFloat t, ''slowness'' \<mapsto> PyStr ''0'']"

text \<open>
  A heap holding the dictionaries of a list as distinct objects: reference \<open>r\<close> points to
  the \<open>r\<close>-th dictionary, and the references beyond point to empty dictionaries.
\<close>

definition heap_of :: "pydict list \<Rightarrow> heap" where
  "heap_of ds r = (if r < length ds then ds ! r else Map.empty)"

text \<open>
  The quotient \<open>duration[i] / duration[i - 1]\<close> of a list of entries, when both durations
  are there and the division is defined.
\<close>

definition ratio :: "ref list \<Rightarrow> heap \<Rightarrow> nat \<Rightarrow> pyfloat option" where
  "ratio results h i =
     (case (h (results ! i) ''duration'', h (results ! (i - 1)) ''duration'') of
        (Some d, Some prev) \<Rightarrow> (case truediv d prev of Inr r \<Rightarrow> Some r | Inl e \<Rightarrow> None)
      | _ \<Rightarrow> None)"

section \<open>The store, the clock and the benchmark functions\<close>

text \<open>
  What happens in the world, in the order it happens: statements sent to the database,
  batches run by a thread pool (with the way each invocation ended), and readings of
  \<open>perf_counter\<close>. The journal keeps that order; the clock is the time in seconds. The
  journal is the history of the world, not something the program can read.
\<close>

datatype future = Returned | Raised error

datatype action =
    DropAll
  | CreateAll
  | ClockRead
  | Populate
  | Pool func nat nat
  | BulkInsert func nat

record world =
  clock :: rat
  journal :: "action list"
  stdout :: "display list"

text \<open>
  What the module cannot decide: how long each action takes, at which times the store is
  unreachable, how long after the start of its batch an invocation of a worker reaches the
  store, and which invocations fail on their own.
\<close>

record env =
  elapsed :: "action \<Rightarrow> rat"
  store_down :: "rat \<Rightarrow> bool"
  started :: "func \<Rightarrow> nat \<Rightarrow> rat"
  invocation_fails :: "func \<Rightarrow> nat \<Rightarrow> bool"

text \<open>
  A statement run on the main thread: it raises when the store is unreachable, otherwise
  it takes its time and is journalled.
\<close>

definition perform :: "env \<Rightarrow> action \<Rightarrow> world \<Rightarrow> error option \<times> world" where
  "perform E a w =
     (if store_down E (clock w) then (Some OperationalError, w)
      else (None, w\<lparr>clock := clock w + elapsed E a, journal := journal w @ [a]\<rparr>))"

definition perf_counter :: "world \<Rightarrow> pyfloat \<times> world" where
  "perf_counter w = (float_of_rat (clock w), w\<lparr>journal := journal w @ [ClockRead]\<rparr>)"

text \<open>
  The table of lines 24-29 and the columns each worker's statement names (PostgreSQL folds
  the unquoted \<open>LONG_VALUE\<close> of line 171 to lower case).
\<close>

definition table_columns :: "string list" where
  "table_columns = [''id'', ''short_val'', ''long_val'']"

fun stmt_columns :: "func \<Rightarrow> string list" where
  "stmt_columns RunSqlalchemySelect = [''id'']"
| "stmt_columns RunPsycopgSelect = [''id'']"
| "stmt_columns RunSqlalchemyUpdate = [''id'', ''long_val'']"
| "stmt_columns RunPsycopgUpdate = [''long_value'', ''id'']"
| "stmt_columns RunSqlalchemyAddAll = [''short_val'', ''long_val'']"
| "stmt_columns PsycopgExecutemany = [''short_val'', ''long_val'']"
| "stmt_columns RunSqlalchemyConcurrentAdd = [''short_val'', ''long_val'']"
| "stmt_columns PsycopgConcurrentAdd = [''short_val'', ''long_val'']"

text \<open>
  Invocation \<open>i\<close> of a worker \<open>func\<close> on a pool thread, in a batch that began at time \<open>t\<close>.
  It needs a connection first, then the database has to accept its statement, then the
  statement has to succeed. An exception it raises is caught by the executor and stored in
  the invocation's future; it reaches nothing else.
\<close>

definition invoke :: "env \<Rightarrow> func \<Rightarrow> rat \<Rightarrow> nat \<Rightarrow> future" where
  "invoke E f t i =
     (if store_down E (t + started E f i) then Raised OperationalError
      else if \<not> set (stmt_columns f) \<subseteq> set table_columns then Raised ProgrammingError
      else if invocation_fails E f i then Raised OperationError
      else Returned)"

text \<open>
  \<open>[tpe.submit(func) for i in range(n)]\<close>, once the pool has shut down: the executor takes
  the invocations in the order they were submitted and runs each of them, whatever the
  others did.
\<close>

fun drain :: "env \<Rightarrow> func \<Rightarrow> rat \<Rightarrow> nat list \<Rightarrow> future list" where
  "drain E f t [] = []"
| "drain E f t (i # queue) = invoke E f t i # drain E f t queue"

definition submit_all :: "env \<Rightarrow> func \<Rightarrow> rat \<Rightarrow> nat \<Rightarrow> future list" where
  "submit_all E f t n = drain E f t [0..<n]"

text \<open>
  \<open>with ThreadPoolExecutor(max_workers=...) as tpe: futures = [...]\<close>: leaving the block
  waits for every invocation, so the batch is over when the function goes on. What the
  block leaves is the list \<open>futures\<close>, one future per submitted invocation, and the world
  after the batch.
\<close>

definition thread_pool :: "env \<Rightarrow> func \<Rightarrow> nat \<Rightarrow> nat \<Rightarrow> world \<Rightarrow> future list \<times> world" where
  "thread_pool E f max_workers n w =
     (submit_all E f (clock w) n,
      w\<lparr>clock := clock w + elapsed E (Pool f max_workers n),
        journal := journal w @ [Pool f max_workers n]\<rparr>)"

text \<open>The \<open>populate_stmt\<close> block at the head of the select and update functions.\<close>

definition populate :: "env \<Rightarrow> world \<Rightarrow> error option \<times> world" where
  "populate E w = perform E Populate w"

definition run_sqlalchemy_select :: "env \<Rightarrow> world \<Rightarrow> error option \<times> world" where
  "run_sqlalchemy_select E w =
     (case populate E w of
        (Some e, w') \<Rightarrow> (Some e, w')
      | (None, w') \<Rightarrow>
          (case thread_pool E RunSqlalchemySelect 1000 100000 w' of (futures, w'') \<Rightarrow> (None, w'')))"

definition run_psycopg_select :: "env \<Rightarrow> world \<Rightarrow> error option \<times> world" where
  "run_psycopg_select E w =
     (case populate E w of
        (Some e, w') \<Rightarrow> (Some e, w')
      | (None, w') \<Rightarrow>
          (case thread_pool E RunPsycopgSelect 1000 100000 w' of (futures, w'') \<Rightarrow> (None, w'')))"

definition run_sqlalchemy_update :: "env \<Rightarrow> world \<Rightarrow> error option \<times> world" where
  "run_sqlalchemy_update E w =
     (case populate E w of
        (Some e, w') \<Rightarrow> (Some e, w')
      | (None, w') \<Rightarrow>
          (case thread_pool E RunSqlalchemyUpdate 1000 100000 w' of (futures, w'') \<Rightarrow> (None, w'')))"

definition run_psycopg_update :: "env \<Rightarrow> world \<Rightarrow> error option \<times> world" where
  "run_psycopg_update E w =
     (case populate E w of
        (Some e, w') \<Rightarrow> (Some e, w')
      | (None, w') \<Rightarrow>
          (case thread_pool E RunPsycopgUpdate 1000 100000 w' of (futures, w'') \<Rightarrow> (None, w'')))"

definition run_sqlalchemy_add_all :: "env \<Rightarrow> world \<Rightarrow> error option \<times> world" where
  "run_sqlalchemy_add_all E w = perform E (BulkInsert RunSqlalchemyAddAll 100000) w"

definition psycopg_executemany :: "env \<Rightarrow> world \<Rightarrow> error option \<times> world" where
  "psycopg_executemany E w = perform E (BulkInsert PsycopgExecutemany 100000) w"

definition run_sqlalchemy_concurrent_add :: "env \<Rightarrow> world \<Rightarrow> error option \<times> world" where
  "run_sqlalchemy_concurrent_add E w =
     (case thread_pool E RunSqlalchemyConcurrentAdd 1000 100000 w of (futures, w') \<Rightarrow> (None, w'))"

definition psycopg_concurrent_add :: "env \<Rightarrow> world \<Rightarrow> error option \<times> world" where
  "psycopg_concurrent_add E w =
     (case thread_pool E PsycopgConcurrentAdd 1000 100000 w of (futures, w') \<Rightarrow> (None, w'))"

text \<open>Calling the function a catalog entry stores.\<close>

fun call :: "func \<Rightarrow> env \<Rightarrow> world \<Rightarrow> error option \<times> world" where
  "call RunSqlalchemySelect = run_sqlalchemy_select"
| "call RunPsycopgSelect = run_psycopg_select"
| "call RunSqlalchemyUpdate = run_sqlalchemy_update"
| "call RunPsycopgUpdate = run_psycopg_update"
| "call RunSqlalchemyAddAll = run_sqlalchemy_add_all"
| "call PsycopgExecutemany = psycopg_executemany"
| "call RunSqlalchemyConcurrentAdd = run_sqlalchemy_concurrent_add"
| "call PsycopgConcurrentAdd = psycopg_concurrent_add"

text \<open>\<open>function()\<close> on whatever value was passed: only a function can be called.\<close>

definition call_value :: "pyval \<Rightarrow> env \<Rightarrow> world \<Rightarrow> error option \<times> world" where
  "call_value v E w = (case v of PyFunc f \<Rightarrow> call f E w | _ \<Rightarrow> (Some TypeError, w))"

section \<open>The runner: benchmark_worker and run_benchmark\<close>

text \<open>
  Lines 273-279: drop and create the schema, read the clock, call the function, read the
  clock again. An exception leaves through the caller; the world stays as it was then.
\<close>

definition benchmark_worker :: "env \<Rightarrow> pyval \<Rightarrow> world \<Rightarrow> (error + pyfloat) \<times> world" where
  "benchmark_worker E function w =
     (case perform E DropAll w of
        (Some e, w1) \<Rightarrow> (Inl e, w1)
      | (None, w1) \<Rightarrow>
          (case perform E CreateAll w1 of
             (Some e, w2) \<Rightarrow> (Inl e, w2)
           | (None, w2) \<Rightarrow>
               (case perf_counter w2 of
                  (start, w3) \<Rightarrow>
                    (case call_value function E w3 of
                       (Some e, w4) \<Rightarrow> (Inl e, w4)
                     | (None, w4) \<Rightarrow>
                         (case perf_counter w4 of
                            (stop, w5) \<Rightarrow> (Inr (float_sub stop start), w5))))))"

text \<open>
  The catalog of lines 319-368, the list \<open>functions\<close> of \<open>run_benchmark\<close>: eight dictionary
  literals, hence eight distinct objects.
\<close>

definition entry :: "string \<Rightarrow> func \<Rightarrow> pydict" where
  "entry n f =
     [''name'' \<mapsto> PyStr n, ''func'' \<mapsto> PyFunc f, ''duration'' \<mapsto> PyInt 0,
      ''slowness'' \<mapsto> PyStr ''0'']"

definition functions_list :: "pydict list" where
  "functions_list =
     [entry ''Psycopg Concurrent Select'' RunPsycopgSelect,
      entry ''SQLAlchemy Concurrent Select'' RunSqlalchemySelect,
      entry ''Psycopg Concurrent update'' RunPsycopgUpdate,
      entry ''SQLAlchemy Concurrent update'' RunSqlalchemyUpdate,
      entry ''Psycopg Batch Add'' PsycopgExecutemany,
      entry ''SQLAlchemy Batch Add'' RunSqlalchemyAddAll,
      entry ''Psycopg Concurrent Add'' PsycopgConcurrentAdd,
      entry ''SQLAlchemy Concurrent Add'' RunSqlalchemyConcurrentAdd]"

text \<open>
  Lines 370-371: \<open>for func in functions: func["duration"] = benchmark_worker(func["func"])\<close>.
  The objects are updated in place, so an exception leaves the earlier durations stored.
\<close>

fun benchmark_each ::
  "env \<Rightarrow> ref list \<Rightarrow> heap \<Rightarrow> world \<Rightarrow> error option \<times> heap \<times> world" where
  "benchmark_each E [] h w = (None, h, w)"
| "benchmark_each E (r # rs) h w =
     (case getitem (h r) ''func'' of
        Inl e \<Rightarrow> (Some e, h, w)
      | Inr v \<Rightarrow>
          (case benchmark_worker E v w of
             (Inl e, w') \<Rightarrow> (Some e, h, w')
           | (Inr t, w') \<Rightarrow>
               benchmark_each E rs (h(r := (h r)(''duration'' \<mapsto> PyFloat t))) w'))"

text \<open>
  \<open>run_benchmark\<close>: the catalog is built (references 0 to 7 in a heap of its own, which
  nothing outside the function sees), every entry is timed, and the results are printed.
  What is left is the exception that leaves the function (if any) and the world.
\<close>

definition run_benchmark :: "env \<Rightarrow> world \<Rightarrow> error option \<times> world" where
  "run_benchmark E w =
     (let functions = [0..<length functions_list]
      in case benchmark_each E functions (heap_of functions_list) w of
           (Some e, h, w') \<Rightarrow> (Some e, w')
         | (None, h, w') \<Rightarrow>
             (case print_results functions h (stdout w') of
                (eo, h', out) \<Rightarrow> (eo, w'\<lparr>stdout := out\<rparr>)))"

subsection \<open>Notions used in the statements about the runner\<close>

text \<open>The entries that need rows to work on: their functions seed the table first.\<close>

definition requires_data :: "func \<Rightarrow> bool" where
  "requires_data f \<longleftrightarrow>
     f \<in> {RunSqlalchemySelect, RunPsycopgSelect, RunSqlalchemyUpdate, RunPsycopgUpdate}"

text \<open>The client library a benchmark function goes through, and the operation it times.\<close>

datatype client = Psycopg | SQLAlchemy

datatype operation = ConcurrentSelect | ConcurrentUpdate | BatchAdd | ConcurrentAdd

fun client_of :: "func \<Rightarrow> client" where
  "client_of RunSqlalchemySelect = SQLAlchemy"
| "client_of RunPsycopgSelect = Psycopg"
| "client_of RunSqlalchemyUpdate = SQLAlchemy"
| "client_of RunPsycopgUpdate = Psycopg"
| "client_of RunSqlalchemyAddAll = SQLAlchemy"
| "client_of PsycopgExecutemany = Psycopg"
| "client_of RunSqlalchemyConcurrentAdd = SQLAlchemy"
| "client_of PsycopgConcurrentAdd = Psycopg"

fun operation_of :: "func \<Rightarrow> operation" where
  "operation_of RunSqlalchemySelect = ConcurrentSelect"
| "operation_of RunPsycopgSelect = ConcurrentSelect"
| "operation_of RunSqlalchemyUpdate = ConcurrentUpdate"
| "operation_of RunPsycopgUpdate = ConcurrentUpdate"
| "operation_of RunSqlalchemyAddAll = BatchAdd"
| "operation_of PsycopgExecutemany = BatchAdd"
| "operation_of RunSqlalchemyConcurrentAdd = ConcurrentAdd"
| "operation_of PsycopgConcurrentAdd = ConcurrentAdd"

definition func_of :: "pydict \<Rightarrow> func option" where
  "func_of d = (case d ''func'' of Some (PyFunc f) \<Rightarrow> Some f | _ \<Rightarrow> None)"

text \<open>
  The durations \<open>benchmark_worker\<close> returns for the functions of a list of entries, in order,
  as long as it returns.
\<close>

fun measured :: "env \<Rightarrow> pydict list \<Rightarrow> world \<Rightarrow> pyfloat list" where
  "measured E [] w = []"
| "measured E (d # ds) w =
     (case func_of d of
        None \<Rightarrow> []
      | Some f \<Rightarrow>
          (case benchmark_worker E (PyFunc f) w of
             (Inl e, w') \<Rightarrow> []
           | (Inr t, w') \<Rightarrow> t # measured E ds w'))"

section \<open>Properties of the reporter\<close>

subsection \<open>One iteration and the loop\<close>

lemma slowness_of_4_2:
  "slowness_of (PyFloat (Finite False 4)) (PyFloat (Finite False 2)) = Inr (PyStr ''2.0x'')"
  by code_simp

lemma slowness_of_3_1:
  "slowness_of (PyFloat (Finite False 3)) (PyFloat (Finite False 1)) = Inr (PyStr ''3.0x'')"
  by code_simp

lemma slowness_of_25_1:
  "slowness_of (PyFloat (Finite False (5 / 2))) (PyFloat (Finite False 1)) = Inr (PyStr ''2.5x'')"
  by code_simp

lemma slowness_of_1_3:
  "slowness_of (PyFloat (Finite False 1)) (PyFloat (Finite False 3)) = Inr (PyStr ''0.33x'')"
  by code_simp

lemma slowness_of_3_2:
  "slowness_of (PyFloat (Finite False 3)) (PyFloat (Finite False 2)) = Inr (PyStr ''1.5x'')"
  by code_simp

lemma slowness_of_1_1:
  "slowness_of (PyFloat (Finite False 1)) (PyFloat (Finite False 1)) = Inr (PyStr ''1.0x'')"
  by code_simp

lemma slowness_of_1_0:
  "slowness_of (PyFloat (Finite False 1)) (PyFloat (Finite False 0)) = Inl ZeroDivisionError"
  by (simp add: slowness_of_def truediv_def float_truediv_def)

lemma step_even: "even idx \<Longrightarrow> slowness_step rs idx h = Inr h"
  by (simp add: slowness_step_def)

lemma step_odd:
  "odd idx \<Longrightarrow> slowness_step rs idx h =
     (case getitem (h (rs ! (idx - 1))) ''duration'' of
        Inl e \<Rightarrow> Inl e
      | Inr prev \<Rightarrow>
          (case getitem (h (rs ! idx)) ''duration'' of
             Inl e \<Rightarrow> Inl e
           | Inr d \<Rightarrow>
               (case slowness_of d prev of
                  Inl e \<Rightarrow> Inl e
                | Inr s \<Rightarrow> Inr (h(rs ! idx := (h (rs ! idx))(''slowness'' \<mapsto> s))))))"
  by (simp add: slowness_step_def odd_iff_mod_2_eq_one)

lemma step_Inr_cases:
  assumes "slowness_step rs idx h = Inr h'"
  shows "h' = h \<and> even idx \<or>
         (odd idx \<and> (\<exists>p d s. getitem (h (rs ! (idx - 1))) ''duration'' = Inr p \<and>
            getitem (h (rs ! idx)) ''duration'' = Inr d \<and> slowness_of d p = Inr s \<and>
            h' = h(rs ! idx := (h (rs ! idx))(''slowness'' \<mapsto> s))))"
proof (cases "even idx")
  case True
  with assms show ?thesis by (simp add: step_even)
next
  case False
  with assms show ?thesis
    by (auto simp: step_odd split: sum.splits)
qed

lemma step_other_keys:
  "slowness_step rs idx h = Inr h' \<Longrightarrow> key \<noteq> ''slowness'' \<Longrightarrow> h' r key = h r key"
  by (drule step_Inr_cases) auto

lemma step_slowness_kept:
  "slowness_step rs idx h = Inr h' \<Longrightarrow> h r ''slowness'' \<noteq> None \<Longrightarrow> h' r ''slowness'' \<noteq> None"
  by (drule step_Inr_cases) auto

lemma step_untouched:
  "slowness_step rs idx h = Inr h' \<Longrightarrow> odd idx \<longrightarrow> rs ! idx \<noteq> r \<Longrightarrow> h' r = h r"
  by (drule step_Inr_cases) auto

lemma loop_other_keys:
  "slowness_loop k idx rs h = (eo, h') \<Longrightarrow> key \<noteq> ''slowness'' \<Longrightarrow> h' r key = h r key"
proof (induction k arbitrary: idx h)
  case 0
  then show ?case by simp
next
  case (Suc k)
  show ?case
  proof (cases "slowness_step rs idx h")
    case (Inl e)
    with Suc.prems show ?thesis by simp
  next
    case (Inr h1)
    with Suc.prems have l: "slowness_loop k (Suc idx) rs h1 = (eo, h')" by simp
    from Suc.IH [OF l Suc.prems(2)] have "h' r key = h1 r key" .
    also from Inr Suc.prems(2) have "\<dots> = h r key" by (rule step_other_keys)
    finally show ?thesis .
  qed
qed

lemma loop_slowness_kept:
  "slowness_loop k idx rs h = (eo, h') \<Longrightarrow> h r ''slowness'' \<noteq> None \<Longrightarrow>
   h' r ''slowness'' \<noteq> None"
proof (induction k arbitrary: idx h)
  case 0
  then show ?case by simp
next
  case (Suc k)
  show ?case
  proof (cases "slowness_step rs idx h")
    case (Inl e)
    with Suc.prems show ?thesis by simp
  next
    case (Inr h1)
    with Suc.prems have l: "slowness_loop k (Suc idx) rs h1 = (eo, h')" by simp
    from Inr Suc.prems(2) have "h1 r ''slowness'' \<noteq> None" by (rule step_slowness_kept)
    with Suc.IH [OF l] show ?thesis .
  qed
qed

lemma loop_untouched:
  "slowness_loop k idx rs h = (eo, h') \<Longrightarrow>
   \<forall>j. idx \<le> j \<and> j < idx + k \<and> odd j \<longrightarrow> rs ! j \<noteq> r \<Longrightarrow> h' r = h r"
proof (induction k arbitrary: idx h)
  case 0
  then show ?case by simp
next
  case (Suc k)
  show ?case
  proof (cases "slowness_step rs idx h")
    case (Inl e)
    with Suc.prems show ?thesis by simp
  next
    case (Inr h1)
    with Suc.prems have l: "slowness_loop k (Suc idx) rs h1 = (eo, h')" by simp
    from Suc.prems(2) have "\<forall>j. Suc idx \<le> j \<and> j < Suc idx + k \<and> odd j \<longrightarrow> rs ! j \<noteq> r"
      by auto
    from Suc.IH [OF l this] have "h' r = h1 r" .
    also have "h1 r = h r"
    proof (rule step_untouched [OF Inr])
      from Suc.prems(2) show "odd idx \<longrightarrow> rs ! idx \<noteq> r" by auto
    qed
    finally show ?thesis .
  qed
qed

text \<open>The loop goes by the durations alone, and these it never writes.\<close>

lemma ratio_SomeD:
  "ratio rs h j = Some r \<Longrightarrow>
   \<exists>d p. getitem (h (rs ! j)) ''duration'' = Inr d \<and>
         getitem (h (rs ! (j - 1))) ''duration'' = Inr p \<and>
         truediv d p = Inr r \<and>
         slowness_of d p = Inr (PyStr (float_repr (float_round r 2) @ ''x''))"
  by (auto simp: ratio_def getitem_def slowness_of_def split: option.splits sum.splits)

lemma step_ratio:
  "odd idx \<Longrightarrow> ratio rs h idx = Some r \<Longrightarrow>
   slowness_step rs idx h =
     Inr (h(rs ! idx := (h (rs ! idx))(''slowness'' \<mapsto> PyStr (float_repr (float_round r 2) @ ''x''))))"
  by (drule ratio_SomeD) (auto simp: step_odd)

lemma step_keeps_ratio:
  "slowness_step rs idx h = Inr h1 \<Longrightarrow> ratio rs h1 j = ratio rs h j"
  by (simp add: ratio_def step_other_keys)

lemma step_defined:
  assumes "odd idx \<longrightarrow> ratio rs h idx \<noteq> None"
  shows "\<exists>h1. slowness_step rs idx h = Inr h1"
proof (cases "odd idx")
  case True
  with assms obtain r where "ratio rs h idx = Some r" by auto
  with True show ?thesis by (simp add: step_ratio)
next
  case False
  then show ?thesis by (simp add: step_even)
qed

lemma loop_returns:
  "\<forall>j. idx \<le> j \<and> j < idx + k \<and> odd j \<longrightarrow> ratio rs h j \<noteq> None \<Longrightarrow>
   fst (slowness_loop k idx rs h) = None"
proof (induction k arbitrary: idx h)
  case 0
  then show ?case by simp
next
  case (Suc k)
  from Suc.prems have "odd idx \<longrightarrow> ratio rs h idx \<noteq> None" by auto
  then obtain h1 where st: "slowness_step rs idx h = Inr h1" using step_defined by blast
  from Suc.prems have "\<forall>j. Suc idx \<le> j \<and> j < Suc idx + k \<and> odd j \<longrightarrow> ratio rs h1 j \<noteq> None"
    by (auto simp: step_keeps_ratio [OF st])
  from Suc.IH [OF this] st show ?case by simp
qed

lemma loop_sets:
  "idx \<le> i \<Longrightarrow> i < idx + k \<Longrightarrow> odd i \<Longrightarrow>
   \<forall>j. idx \<le> j \<and> j \<le> i \<and> odd j \<longrightarrow> ratio rs h j \<noteq> None \<Longrightarrow>
   \<forall>j. i < j \<and> j < idx + k \<and> odd j \<longrightarrow> rs ! j \<noteq> rs ! i \<Longrightarrow>
   \<exists>r. ratio rs h i = Some r \<and>
       snd (slowness_loop k idx rs h) (rs ! i) ''slowness'' =
         Some (PyStr (float_repr (float_round r 2) @ ''x''))"
proof (induction k arbitrary: idx h)
  case 0
  then show ?case by simp
next
  case (Suc k)
  from Suc.prems have "odd idx \<longrightarrow> ratio rs h idx \<noteq> None" by auto
  then obtain h1 where st: "slowness_step rs idx h = Inr h1" using step_defined by blast
  obtain eo h' where l: "slowness_loop k (Suc idx) rs h1 = (eo, h')"
    by (cases "slowness_loop k (Suc idx) rs h1")
  show ?case
  proof (cases "i = idx")
    case True
    with Suc.prems obtain r where r: "ratio rs h idx = Some r" by auto
    with True Suc.prems(3) st
    have "h1 = h(rs ! idx := (h (rs ! idx))(''slowness'' \<mapsto> PyStr (float_repr (float_round r 2) @ ''x'')))"
      by (simp add: step_ratio)
    then have "h1 (rs ! idx) ''slowness'' = Some (PyStr (float_repr (float_round r 2) @ ''x''))"
      by simp
    moreover have "h' (rs ! idx) = h1 (rs ! idx)"
    proof (rule loop_untouched [OF l])
      from Suc.prems(5) True
      show "\<forall>j. Suc idx \<le> j \<and> j < Suc idx + k \<and> odd j \<longrightarrow> rs ! j \<noteq> rs ! idx" by auto
    qed
    ultimately show ?thesis using True r st l by simp
  next
    case False
    with Suc.prems have b: "Suc idx \<le> i" "i < Suc idx + k" by auto
    have c: "\<forall>j. Suc idx \<le> j \<and> j \<le> i \<and> odd j \<longrightarrow> ratio rs h1 j \<noteq> None"
      using Suc.prems(4) by (auto simp: step_keeps_ratio [OF st])
    have d: "\<forall>j. i < j \<and> j < Suc idx + k \<and> odd j \<longrightarrow> rs ! j \<noteq> rs ! i"
      using Suc.prems(5) by auto
    from Suc.IH [OF b Suc.prems(3) c d]
    obtain r where r: "ratio rs h1 i = Some r"
      "snd (slowness_loop k (Suc idx) rs h1) (rs ! i) ''slowness'' =
         Some (PyStr (float_repr (float_round r 2) @ ''x''))" by blast
    with st show ?thesis by (simp add: step_keeps_ratio [OF st])
  qed
qed

subsection \<open>Outcome of the loop\<close>

lemma float_truediv_zero: "float_truediv a (Finite t 0) = Inl ZeroDivisionError"
  by (simp add: float_truediv_def)

lemma float_truediv_Inl:
  "float_truediv a b = Inl e \<Longrightarrow> e = ZeroDivisionError \<and> (\<exists>t. b = Finite t 0)"
  by (auto simp: float_truediv_def split: pyfloat.splits if_splits)

lemma float_truediv_nonzero:
  "\<not> (\<exists>t. b = Finite t 0) \<Longrightarrow> \<exists>r. float_truediv a b = Inr r"
  by (cases "float_truediv a b") (auto dest: float_truediv_Inl)

lemma has_float_durationE:
  "has_float_duration d \<Longrightarrow> \<exists>t. d ''duration'' = Some (PyFloat t)"
  by (auto simp: has_float_duration_def split: option.splits pyval.splits)

lemma zero_duration_iff:
  "d ''duration'' = Some (PyFloat t) \<Longrightarrow> zero_duration d \<longleftrightarrow> (\<exists>s. t = Finite s 0)"
  by (auto simp: zero_duration_def split: pyfloat.splits)

lemma step_zero:
  assumes "odd idx" "has_float_duration (h (rs ! (idx - 1)))" "has_float_duration (h (rs ! idx))"
    "zero_duration (h (rs ! (idx - 1)))"
  shows "slowness_step rs idx h = Inl ZeroDivisionError"
proof -
  from assms(2) obtain p where p: "h (rs ! (idx - 1)) ''duration'' = Some (PyFloat p)"
    by (auto dest: has_float_durationE)
  from assms(3) obtain d where d: "h (rs ! idx) ''duration'' = Some (PyFloat d)"
    by (auto dest: has_float_durationE)
  from assms(4) p obtain s where "p = Finite s 0" by (auto simp: zero_duration_iff)
  with p d assms(1) show ?thesis
    by (simp add: step_odd getitem_def slowness_of_def truediv_def float_truediv_zero)
qed

lemma step_nonzero:
  assumes "odd idx" "has_float_duration (h (rs ! (idx - 1)))" "has_float_duration (h (rs ! idx))"
    "\<not> zero_duration (h (rs ! (idx - 1)))"
  shows "\<exists>h1. slowness_step rs idx h = Inr h1"
proof -
  from assms(2) obtain p where p: "h (rs ! (idx - 1)) ''duration'' = Some (PyFloat p)"
    by (auto dest: has_float_durationE)
  from assms(3) obtain d where d: "h (rs ! idx) ''duration'' = Some (PyFloat d)"
    by (auto dest: has_float_durationE)
  from assms(4) p have "\<not> (\<exists>t. p = Finite t 0)" by (simp add: zero_duration_iff)
  then obtain r where "float_truediv d p = Inr r" using float_truediv_nonzero by blast
  with p d assms(1) show ?thesis
    by (simp add: step_odd getitem_def slowness_of_def truediv_def)
qed

lemma step_keeps_float:
  "slowness_step rs idx h = Inr h1 \<Longrightarrow> has_float_duration (h1 r) = has_float_duration (h r)"
  by (simp add: has_float_duration_def step_other_keys)

lemma step_keeps_zero:
  "slowness_step rs idx h = Inr h1 \<Longrightarrow> zero_duration (h1 r) = zero_duration (h r)"
  by (simp add: zero_duration_def step_other_keys)

lemma loop_outcome:
  "\<forall>j<idx + k. has_float_duration (h (rs ! j)) \<Longrightarrow>
   fst (slowness_loop k idx rs h) =
     (if \<exists>i. idx \<le> i \<and> i < idx + k \<and> odd i \<and> zero_duration (h (rs ! (i - 1)))
      then Some ZeroDivisionError else None)"
proof (induction k arbitrary: idx h)
  case 0
  then show ?case by simp
next
  case (Suc k)
  let ?Z = "\<lambda>h lo. \<exists>i. lo \<le> i \<and> i < idx + Suc k \<and> odd i \<and> zero_duration (h (rs ! (i - 1)))"
  show ?case
  proof (cases "odd idx \<and> zero_duration (h (rs ! (idx - 1)))")
    case True
    with Suc.prems have "slowness_step rs idx h = Inl ZeroDivisionError"
      by (intro step_zero) auto
    moreover from True have "?Z h idx" by (intro exI [of _ idx]) auto
    ultimately show ?thesis by simp
  next
    case False
    have "\<exists>h1. slowness_step rs idx h = Inr h1"
    proof (cases "odd idx")
      case True
      with False Suc.prems show ?thesis by (intro step_nonzero) auto
    next
      case False
      then show ?thesis by (simp add: step_even)
    qed
    then obtain h1 where st: "slowness_step rs idx h = Inr h1" ..
    have fl: "\<forall>j<Suc idx + k. has_float_duration (h1 (rs ! j))"
      using Suc.prems by (simp add: step_keeps_float [OF st])
    have "?Z h1 (Suc idx) \<longleftrightarrow> ?Z h (Suc idx)"
      by (simp add: step_keeps_zero [OF st])
    also have "\<dots> \<longleftrightarrow> ?Z h idx"
    proof
      assume "?Z h (Suc idx)"
      then obtain i where "Suc idx \<le> i" "i < idx + Suc k" "odd i"
        "zero_duration (h (rs ! (i - 1)))" by blast
      then show "?Z h idx" by (intro exI [of _ i]) auto
    next
      assume "?Z h idx"
      then obtain i where i: "idx \<le> i" "i < idx + Suc k" "odd i"
        "zero_duration (h (rs ! (i - 1)))" by blast
      with False have "i \<noteq> idx" by auto
      with i show "?Z h (Suc idx)" by (intro exI [of _ i]) auto
    qed
    finally have "?Z h1 (Suc idx) \<longleftrightarrow> ?Z h idx" .
    with Suc.IH [OF fl] st show ?thesis by simp
  qed
qed

text \<open>
  Two heaps that agree on everything but the slowness fields take the loop through the
  same steps: the same exception, and the same writes.
\<close>

lemma step_sim:
  assumes "\<forall>r key. key \<noteq> ''slowness'' \<longrightarrow> h1 r key = h2 r key"
  shows "(\<exists>e. slowness_step rs idx h1 = Inl e \<and> slowness_step rs idx h2 = Inl e) \<or>
         (slowness_step rs idx h1 = Inr h1 \<and> slowness_step rs idx h2 = Inr h2) \<or>
         (\<exists>s. slowness_step rs idx h1 = Inr (h1(rs ! idx := (h1 (rs ! idx))(''slowness'' \<mapsto> s))) \<and>
              slowness_step rs idx h2 = Inr (h2(rs ! idx := (h2 (rs ! idx))(''slowness'' \<mapsto> s))))"
proof (cases "even idx")
  case True
  then show ?thesis by (simp add: step_even)
next
  case False
  from assms have d: "h1 r ''duration'' = h2 r ''duration''" for r by simp
  from False show ?thesis
    by (auto simp: step_odd getitem_def d split: option.splits sum.splits)
qed

lemma loop_sim:
  "\<forall>r key. key \<noteq> ''slowness'' \<longrightarrow> h1 r key = h2 r key \<Longrightarrow>
   slowness_loop k idx rs h1 = (eo1, h1') \<Longrightarrow> slowness_loop k idx rs h2 = (eo2, h2') \<Longrightarrow>
   eo1 = eo2 \<and> (\<forall>r. h1' r ''slowness'' = h2' r ''slowness'' \<or> (h1' r = h1 r \<and> h2' r = h2 r))"
proof (induction k arbitrary: idx h1 h2)
  case 0
  then show ?case by simp
next
  case (Suc k)
  from step_sim [OF Suc.prems(1), of rs idx]
  consider (raise) e where "slowness_step rs idx h1 = Inl e" "slowness_step rs idx h2 = Inl e"
    | (skip) "slowness_step rs idx h1 = Inr h1" "slowness_step rs idx h2 = Inr h2"
    | (wr) s where
        "slowness_step rs idx h1 = Inr (h1(rs ! idx := (h1 (rs ! idx))(''slowness'' \<mapsto> s)))"
        "slowness_step rs idx h2 = Inr (h2(rs ! idx := (h2 (rs ! idx))(''slowness'' \<mapsto> s)))"
    by blast
  then show ?case
  proof cases
    case raise
    with Suc.prems show ?thesis by simp
  next
    case skip
    with Suc.prems have "slowness_loop k (Suc idx) rs h1 = (eo1, h1')"
      "slowness_loop k (Suc idx) rs h2 = (eo2, h2')" by simp_all
    from Suc.IH [OF Suc.prems(1) this] show ?thesis .
  next
    case wr
    let ?a = "h1(rs ! idx := (h1 (rs ! idx))(''slowness'' \<mapsto> s))"
    let ?b = "h2(rs ! idx := (h2 (rs ! idx))(''slowness'' \<mapsto> s))"
    from Suc.prems(1) have agree: "\<forall>r key. key \<noteq> ''slowness'' \<longrightarrow> ?a r key = ?b r key"
      by simp
    from wr Suc.prems have "slowness_loop k (Suc idx) rs ?a = (eo1, h1')"
      "slowness_loop k (Suc idx) rs ?b = (eo2, h2')" by simp_all
    from Suc.IH [OF agree this]
    have e: "eo1 = eo2"
      and f: "\<forall>r. h1' r ''slowness'' = h2' r ''slowness'' \<or> (h1' r = ?a r \<and> h2' r = ?b r)"
      by simp_all
    have "h1' r ''slowness'' = h2' r ''slowness'' \<or> (h1' r = h1 r \<and> h2' r = h2 r)" for r
    proof (cases "r = rs ! idx")
      case True
      from f have "h1' r ''slowness'' = h2' r ''slowness'' \<or> (h1' r = ?a r \<and> h2' r = ?b r)" ..
      with True show ?thesis by auto
    next
      case False
      from f have "h1' r ''slowness'' = h2' r ''slowness'' \<or> (h1' r = ?a r \<and> h2' r = ?b r)" ..
      with False show ?thesis by auto
    qed
    with e show ?thesis by simp
  qed
qed

lemma loop_idem:
  assumes "slowness_loop k idx rs h = (eo, h')"
  shows "slowness_loop k idx rs h' = (eo, h')"
proof -
  obtain eo2 h2 where l2: "slowness_loop k idx rs h' = (eo2, h2)"
    by (cases "slowness_loop k idx rs h'")
  have agree: "\<forall>r key. key \<noteq> ''slowness'' \<longrightarrow> h r key = h' r key"
    using loop_other_keys [OF assms] by simp
  from loop_sim [OF agree assms l2]
  have e: "eo = eo2"
    and f: "\<forall>r. h' r ''slowness'' = h2 r ''slowness'' \<or> (h' r = h r \<and> h2 r = h' r)"
    by simp_all
  have "h2 r = h' r" for r
  proof -
    from f have "h' r ''slowness'' = h2 r ''slowness'' \<or> (h' r = h r \<and> h2 r = h' r)" ..
    then show ?thesis
    proof
      assume s: "h' r ''slowness'' = h2 r ''slowness''"
      show ?thesis
      proof
        fix key
        show "h2 r key = h' r key"
          using s loop_other_keys [OF l2, of key r] by (cases "key = ''slowness''") simp_all
      qed
    next
      assume "h' r = h r \<and> h2 r = h' r"
      then show ?thesis by simp
    qed
  qed
  then have "h2 = h'" by (rule ext)
  with l2 e show ?thesis by simp
qed

subsection \<open>Rows\<close>

lemma row_of_no_slowness: "d ''slowness'' = None \<Longrightarrow> \<exists>e. row_of d = Inl e"
  by (auto simp: row_of_def getitem_def split: option.splits)

lemma row_of_KeyError:
  "d ''name'' \<noteq> None \<Longrightarrow> d ''duration'' \<noteq> None \<Longrightarrow> d ''slowness'' = None \<Longrightarrow>
   row_of d = Inl (KeyError ''slowness'')"
  by (auto simp: row_of_def getitem_def split: option.splits)

lemma rows_of_Inr:
  "rows_of xs = Inr data \<Longrightarrow>
   length data = length xs \<and> (\<forall>i<length xs. row_of (xs ! i) = Inr (data ! i))"
proof (induction xs arbitrary: data)
  case Nil
  then show ?case by simp
next
  case (Cons x xs)
  then obtain r rs where r: "row_of x = Inr r" "rows_of xs = Inr rs" "data = r # rs"
    by (auto split: sum.splits)
  with Cons.IH [OF r(2)] show ?case by (auto simp: nth_Cons')
qed

lemma rows_of_total:
  "\<forall>x\<in>set xs. \<exists>r. row_of x = Inr r \<Longrightarrow> \<exists>data. rows_of xs = Inr data"
  by (induction xs) auto

lemma rows_of_fail: "x \<in> set xs \<Longrightarrow> row_of x = Inl e \<Longrightarrow> \<exists>e'. rows_of xs = Inl e'"
  by (induction xs) (auto split: sum.splits)

lemma rows_of_snoc:
  "rows_of (xs @ [x]) =
     (case rows_of xs of
        Inl e \<Rightarrow> Inl e
      | Inr rs \<Rightarrow> (case row_of x of Inl e \<Rightarrow> Inl e | Inr r \<Rightarrow> Inr (rs @ [r])))"
  by (induction xs) (simp_all split: sum.splits)

lemma well_formed_kept:
  assumes "slowness_loop k idx rs h = (eo, h')" "well_formed (h r)"
  shows "well_formed (h' r)"
  using assms
  by (simp add: well_formed_def has_float_duration_def loop_other_keys [OF assms(1)]
      loop_slowness_kept [OF assms(1)])

lemma well_formed_row: "well_formed d \<Longrightarrow> \<exists>r. row_of d = Inr r"
  by (auto simp: well_formed_def row_of_def getitem_def has_float_duration_def
      split: option.splits)

lemma wf_measurement: "well_formed (measurement n t)"
  by (simp add: well_formed_def measurement_def has_float_duration_def)

subsection \<open>The whole computation\<close>

lemma zero_index_iff:
  "(\<exists>i. 0 \<le> i \<and> i < 0 + length rs \<and> odd i \<and> zero_duration (h (rs ! (i - 1)))) \<longleftrightarrow>
   (\<exists>k. 2 * k + 1 < length rs \<and> zero_duration (h (rs ! (2 * k))))"
proof
  assume "\<exists>i. 0 \<le> i \<and> i < 0 + length rs \<and> odd i \<and> zero_duration (h (rs ! (i - 1)))"
  then obtain i where i: "i < length rs" "odd i" "zero_duration (h (rs ! (i - 1)))" by auto
  from i(2) obtain k where "i = 2 * k + 1" by (auto elim: oddE)
  with i show "\<exists>k. 2 * k + 1 < length rs \<and> zero_duration (h (rs ! (2 * k)))" by auto
next
  assume "\<exists>k. 2 * k + 1 < length rs \<and> zero_duration (h (rs ! (2 * k)))"
  then obtain k where "2 * k + 1 < length rs" "zero_duration (h (rs ! (2 * k)))" by blast
  then show "\<exists>i. 0 \<le> i \<and> i < 0 + length rs \<and> odd i \<and> zero_duration (h (rs ! (i - 1)))"
    by (intro exI [of _ "2 * k + 1"]) auto
qed

lemma compute_outcome:
  assumes "\<forall>r\<in>set rs. has_float_duration (h r)"
  shows "fst (compute_slowness rs h) =
     (if \<exists>k. 2 * k + 1 < length rs \<and> zero_duration (h (rs ! (2 * k)))
      then Some ZeroDivisionError else None)"
proof -
  from assms have "\<forall>j<0 + length rs. has_float_duration (h (rs ! j))" by simp
  from loop_outcome [OF this] show ?thesis
    unfolding compute_slowness_def zero_index_iff by simp
qed

lemma rows_after_compute:
  assumes "\<forall>r\<in>set rs. well_formed (h r)"
  shows "\<exists>data. rows_of (map (snd (compute_slowness rs h)) rs) = Inr data"
proof -
  obtain eo h' where l: "slowness_loop (length rs) 0 rs h = (eo, h')"
    by (cases "slowness_loop (length rs) 0 rs h")
  have "\<forall>x\<in>set (map h' rs). \<exists>r. row_of x = Inr r"
    using assms by (auto intro: well_formed_row well_formed_kept [OF l])
  then have "\<exists>data. rows_of (map h' rs) = Inr data" by (rule rows_of_total)
  with l show ?thesis by (simp add: compute_slowness_def)
qed

lemma compute_untouched:
  "\<forall>j<length rs. odd j \<longrightarrow> rs ! j \<noteq> r \<Longrightarrow> snd (compute_slowness rs h) r = h r"
proof -
  assume a: "\<forall>j<length rs. odd j \<longrightarrow> rs ! j \<noteq> r"
  obtain eo h' where l: "slowness_loop (length rs) 0 rs h = (eo, h')"
    by (cases "slowness_loop (length rs) 0 rs h")
  from a have "\<forall>j. 0 \<le> j \<and> j < 0 + length rs \<and> odd j \<longrightarrow> rs ! j \<noteq> r" by simp
  from loop_untouched [OF l this] l show ?thesis by (simp add: compute_slowness_def)
qed

lemma compute_other_keys:
  "key \<noteq> ''slowness'' \<Longrightarrow> snd (compute_slowness rs h) r key = h r key"
  using loop_other_keys [of "length rs" 0 rs h "fst (compute_slowness rs h)"
      "snd (compute_slowness rs h)" key r]
  by (simp add: compute_slowness_def)

lemma print_results_NoneD:
  "print_results rs h out = (None, h', out') \<Longrightarrow>
   compute_slowness rs h = (None, h') \<and>
   (\<exists>data. rows_of (map h' rs) = Inr data \<and> out' = out @ [tabulate data])"
  by (auto simp: print_results_def split: prod.splits option.splits sum.splits)

lemma print_results_heap:
  "fst (snd (print_results rs h out)) = snd (compute_slowness rs h)"
  by (auto simp: print_results_def split: prod.splits option.splits sum.splits)


subsection \<open>Examples\<close>

lemma ratio_from_slowness_of:
  "h (rs ! i) ''duration'' = Some d \<Longrightarrow> h (rs ! (i - 1)) ''duration'' = Some p \<Longrightarrow>
   slowness_of d p = Inr (PyStr s) \<Longrightarrow>
   \<exists>r. ratio rs h i = Some r \<and> float_repr (float_round r 2) @ ''x'' = s"
  by (auto simp: ratio_def slowness_of_def split: sum.splits)

lemma truediv_4_2: "truediv (PyFloat (Finite False 4)) (PyFloat (Finite False 2)) = Inr (Finite False 2)"
  by code_simp

lemma compute_four:
  assumes "h a ''duration'' = Some (PyFloat (Finite False 2))"
    "h b ''duration'' = Some (PyFloat (Finite False 4))"
    "h c ''duration'' = Some (PyFloat (Finite False 1))"
    "h d ''duration'' = Some (PyFloat (Finite False 3))"
  shows "compute_slowness [a, b, c, d] h =
     (None, h(b := (h b)(''slowness'' \<mapsto> PyStr ''2.0x''),
              d := (h d)(''slowness'' \<mapsto> PyStr ''3.0x'')))"
proof -
  from assms have "b \<noteq> c" "b \<noteq> d" by auto
  with assms show ?thesis
    by (simp add: compute_slowness_def step_even step_odd getitem_def
        slowness_of_4_2 slowness_of_3_1)
qed

lemma compute_third:
  assumes "h a ''duration'' = Some (PyFloat (Finite False 3))"
    "h b ''duration'' = Some (PyFloat (Finite False 1))"
  shows "compute_slowness [a, b] h = (None, h(b := (h b)(''slowness'' \<mapsto> PyStr ''0.33x'')))"
  using assms
  by (simp add: compute_slowness_def step_even step_odd getitem_def slowness_of_1_3)

lemma compute_two:
  assumes "h a ''duration'' = Some (PyFloat (Finite False 1))"
    "h b ''duration'' = Some (PyFloat (Finite False (5 / 2)))"
  shows "compute_slowness [a, b] h = (None, h(b := (h b)(''slowness'' \<mapsto> PyStr ''2.5x'')))"
  using assms
  by (simp add: compute_slowness_def step_even step_odd getitem_def slowness_of_25_1)

lemma print_two:
  assumes "h a ''name'' = Some (PyStr ''A'')" "h a ''duration'' = Some (PyFloat (Finite False 1))"
    "h a ''slowness'' = Some s0"
    "h b ''name'' = Some (PyStr ''B'')" "h b ''duration'' = Some (PyFloat (Finite False (5 / 2)))"
  shows "print_results [a, b] h out =
     (None, h(b := (h b)(''slowness'' \<mapsto> PyStr ''2.5x'')),
      out @ [tabulate [[PyStr ''A'', PyFloat (Finite False 1), s0],
                       [PyStr ''B'', PyFloat (Finite False (5 / 2)), PyStr ''2.5x'']]])"
proof -
  from assms have "a \<noteq> b" by auto
  with assms compute_two [of h a b] show ?thesis
    by (simp add: print_results_def row_of_def getitem_def)
qed

lemma compute_last:
  assumes "odd (length rs)" "\<forall>j<length rs. odd j \<longrightarrow> rs ! j \<noteq> last rs"
  shows "snd (compute_slowness rs h) (last rs) = h (last rs)"
  using assms(2) by (rule compute_untouched)

lemma print_results_unset:
  assumes "rs \<noteq> []" "snd (compute_slowness rs h) (last rs) ''slowness'' = None"
  shows "fst (print_results rs h out) \<noteq> None \<and> snd (snd (print_results rs h out)) = out"
proof -
  obtain eo h' where c: "compute_slowness rs h = (eo, h')"
    by (cases "compute_slowness rs h")
  from assms(2) c obtain e where "row_of (h' (last rs)) = Inl e"
    using row_of_no_slowness [of "h' (last rs)"] by auto
  moreover from assms(1) have "h' (last rs) \<in> set (map h' rs)" by simp
  ultimately obtain e' where "rows_of (map h' rs) = Inl e'"
    using rows_of_fail by blast
  with c show ?thesis by (cases eo) (simp_all add: print_results_def)
qed

lemma print_results_well_formed:
  assumes "\<forall>r\<in>set rs. well_formed (h r)"
    "\<not> (\<exists>k. 2 * k + 1 < length rs \<and> zero_duration (h (rs ! (2 * k))))"
  shows "\<exists>data. print_results rs h out =
           (None, snd (compute_slowness rs h), out @ [tabulate data]) \<and>
         rows_of (map (snd (compute_slowness rs h)) rs) = Inr data"
proof -
  obtain eo h' where c: "compute_slowness rs h = (eo, h')"
    by (cases "compute_slowness rs h")
  from assms(1) have "\<forall>r\<in>set rs. has_float_duration (h r)" by (simp add: well_formed_def)
  from compute_outcome [OF this] assms(2) c have "eo = None" by simp
  moreover from rows_after_compute [OF assms(1)] c obtain data where
    "rows_of (map h' rs) = Inr data" by auto
  ultimately show ?thesis using c by (simp add: print_results_def)
qed

lemma print_results_key_error:
  assumes "rs \<noteq> []" "\<forall>j<length rs. odd j \<longrightarrow> rs ! j \<noteq> last rs"
    "h (last rs) ''slowness'' = None" "h (last rs) ''name'' \<noteq> None"
    "has_float_duration (h (last rs))" "\<forall>r\<in>set (butlast rs). well_formed (h r)"
    "\<not> (\<exists>k. 2 * k + 1 < length rs \<and> zero_duration (h (rs ! (2 * k))))"
  shows "fst (print_results rs h out) = Some (KeyError ''slowness'')"
proof -
  obtain eo h' where c: "compute_slowness rs h = (eo, h')"
    by (cases "compute_slowness rs h")
  from assms(1) have split: "rs = butlast rs @ [last rs]" by simp
  have "\<forall>r\<in>set rs. has_float_duration (h r)"
  proof
    fix r assume "r \<in> set rs"
    with split have "r \<in> set (butlast rs) \<or> r = last rs"
      by (metis Un_iff empty_iff insert_iff list.set(1) list.set(2) set_append)
    with assms(5,6) show "has_float_duration (h r)" by (auto simp: well_formed_def)
  qed
  from compute_outcome [OF this] assms(7) c have n: "eo = None" by simp
  from c have l: "slowness_loop (length rs) 0 rs h = (eo, h')"
    by (simp add: compute_slowness_def)
  have "\<forall>x\<in>set (map h' (butlast rs)). \<exists>r. row_of x = Inr r"
    using assms(6) by (auto intro: well_formed_row well_formed_kept [OF l])
  then obtain data where d: "rows_of (map h' (butlast rs)) = Inr data"
    using rows_of_total by blast
  from compute_untouched [OF assms(2), of h] c have "h' (last rs) = h (last rs)" by simp
  with assms(3,4,5) have "row_of (h' (last rs)) = Inl (KeyError ''slowness'')"
    by (intro row_of_KeyError) (auto dest: has_float_durationE)
  with d have "rows_of (map h' (butlast rs) @ [h' (last rs)]) = Inl (KeyError ''slowness'')"
    by (simp add: rows_of_snoc)
  moreover have "map h' rs = map h' (butlast rs) @ [h' (last rs)]"
    by (subst split) simp
  ultimately have "rows_of (map h' rs) = Inl (KeyError ''slowness'')" by simp
  with c n show ?thesis by (simp add: print_results_def)
qed

section \<open>Claims about the reporter\<close>

text \<open>
  C7. The slowness computation is idempotent: running it a second time on the objects the
  first run left behind gives the same outcome (the same exception, if any) and the same
  objects, hence the same slowness strings on every measurement, whatever the list (the
  same object may sit at several indices). The same holds for \<open>print_results\<close> as a whole:
  called again, it leaves the same objects.
\<close>

theorem compute_slowness_idempotent:
  "compute_slowness results (snd (compute_slowness results h)) = compute_slowness results h \<and>
   fst (snd (print_results results (fst (snd (print_results results h out))) out')) =
     fst (snd (print_results results h out))"
proof -
  obtain eo h' where r: "slowness_loop (length results) 0 results h = (eo, h')"
    by (cases "slowness_loop (length results) 0 results h")
  from r have "slowness_loop (length results) 0 results h' = (eo, h')" by (rule loop_idem)
  with r have "compute_slowness results (snd (compute_slowness results h)) =
      compute_slowness results h"
    by (simp add: compute_slowness_def)
  then show ?thesis by (simp add: print_results_heap)
qed

text \<open>
  C2, as the claim states it, fails for some lists. With durations \<open>[0.0, 1.0, 2.0, 4.0]\<close>
  the division at index 1 raises \<open>ZeroDivisionError\<close>, the loop ends there, and index 3
  keeps its placeholder \<open>"0"\<close> although \<open>4.0 / 2.0\<close> is defined. With the list
  \<open>[a, b, c, b]\<close> (the same object at indices 1 and 3) and durations 1.0, 3.0, 2.0 for
  \<open>a\<close>, \<open>b\<close>, \<open>c\<close>, the loop returns normally and the entry at index 1 ends with \<open>"1.5x"\<close>,
  the quotient of index 3, not with \<open>"3.0x"\<close>.
\<close>

theorem slowness_at_odd_index_counterexample:
  "fst (compute_slowness [0, 1, 2, 3]
      (heap_of [measurement ''a'' (Finite False 0), measurement ''b'' (Finite False 1),
                measurement ''c'' (Finite False 2), measurement ''d'' (Finite False 4)])) =
     Some ZeroDivisionError \<and>
   truediv (PyFloat (Finite False 4)) (PyFloat (Finite False 2)) = Inr (Finite False 2) \<and>
   snd (compute_slowness [0, 1, 2, 3]
      (heap_of [measurement ''a'' (Finite False 0), measurement ''b'' (Finite False 1),
                measurement ''c'' (Finite False 2), measurement ''d'' (Finite False 4)])) 3
     ''slowness'' = Some (PyStr ''0'') \<and>
   fst (compute_slowness [0, 1, 2, 1]
      (heap_of [measurement ''a'' (Finite False 1), measurement ''b'' (Finite False 3),
                measurement ''c'' (Finite False 2)])) = None \<and>
   slowness_of (PyFloat (Finite False 3)) (PyFloat (Finite False 1)) = Inr (PyStr ''3.0x'') \<and>
   snd (compute_slowness [0, 1, 2, 1]
      (heap_of [measurement ''a'' (Finite False 1), measurement ''b'' (Finite False 3),
                measurement ''c'' (Finite False 2)])) 1
     ''slowness'' = Some (PyStr ''1.5x'')"
  by (simp add: compute_slowness_def step_even step_odd getitem_def heap_of_def measurement_def
      slowness_of_1_0 slowness_of_3_1 slowness_of_3_2 truediv_4_2)

text \<open>
  C2, amended. At an odd index \<open>i\<close> the slowness computation stores the string made of
  \<open>duration[i] / duration[i - 1]\<close>, rounded to 2 decimal places, followed by \<open>x\<close>, provided
  the quotients at the odd indices up to \<open>i\<close> are defined (the loop gets as far as \<open>i\<close>)
  and the entry at \<open>i\<close> is not the same object as an entry at a later odd index. For
  durations \<open>[2.0, 4.0, 1.0, 3.0]\<close> it returns normally and stores \<open>2.0x\<close> at index 1 and
  \<open>3.0x\<close> at index 3; for durations \<open>[3.0, 1.0]\<close> it stores \<open>0.33x\<close> at index 1.
\<close>

theorem slowness_at_odd_index:
  "(odd i \<and> i < length results \<and> (\<forall>j\<le>i. odd j \<longrightarrow> ratio results h j \<noteq> None) \<and>
    (\<forall>j<length results. i < j \<and> odd j \<longrightarrow> results ! j \<noteq> results ! i) \<longrightarrow>
      (\<exists>r. ratio results h i = Some r \<and>
           snd (compute_slowness results h) (results ! i) ''slowness'' =
             Some (PyStr (float_repr (float_round r 2) @ ''x'')))) \<and>
   (map (\<lambda>r. h r ''duration'') results =
      [Some (PyFloat (Finite False 2)), Some (PyFloat (Finite False 4)),
       Some (PyFloat (Finite False 1)), Some (PyFloat (Finite False 3))] \<longrightarrow>
      fst (compute_slowness results h) = None \<and>
      snd (compute_slowness results h) (results ! 1) ''slowness'' = Some (PyStr ''2.0x'') \<and>
      snd (compute_slowness results h) (results ! 3) ''slowness'' = Some (PyStr ''3.0x'')) \<and>
   (map (\<lambda>r. h r ''duration'') results =
      [Some (PyFloat (Finite False 3)), Some (PyFloat (Finite False 1))] \<longrightarrow>
      snd (compute_slowness results h) (results ! 1) ''slowness'' = Some (PyStr ''0.33x''))"
proof (intro conjI impI)
  assume a: "odd i \<and> i < length results \<and> (\<forall>j\<le>i. odd j \<longrightarrow> ratio results h j \<noteq> None) \<and>
    (\<forall>j<length results. i < j \<and> odd j \<longrightarrow> results ! j \<noteq> results ! i)"
  then have "\<forall>j. 0 \<le> j \<and> j \<le> i \<and> odd j \<longrightarrow> ratio results h j \<noteq> None"
    and "\<forall>j. i < j \<and> j < 0 + length results \<and> odd j \<longrightarrow> results ! j \<noteq> results ! i"
    by simp_all
  with a loop_sets [of 0 i "length results" results h]
  show "\<exists>r. ratio results h i = Some r \<and>
           snd (compute_slowness results h) (results ! i) ''slowness'' =
             Some (PyStr (float_repr (float_round r 2) @ ''x''))"
    by (simp add: compute_slowness_def)
next
  assume m: "map (\<lambda>r. h r ''duration'') results =
      [Some (PyFloat (Finite False 2)), Some (PyFloat (Finite False 4)),
       Some (PyFloat (Finite False 1)), Some (PyFloat (Finite False 3))]"
  then obtain a b c d where r: "results = [a, b, c, d]"
    "h a ''duration'' = Some (PyFloat (Finite False 2))"
    "h b ''duration'' = Some (PyFloat (Finite False 4))"
    "h c ''duration'' = Some (PyFloat (Finite False 1))"
    "h d ''duration'' = Some (PyFloat (Finite False 3))"
    by (auto simp: map_eq_Cons_conv)
  from r(3,5) have bd: "b \<noteq> d" by auto
  from compute_four [of h a b c d] r
  have c: "compute_slowness [a, b, c, d] h =
     (None, h(b := (h b)(''slowness'' \<mapsto> PyStr ''2.0x''),
              d := (h d)(''slowness'' \<mapsto> PyStr ''3.0x'')))"
    by simp
  show "fst (compute_slowness results h) = None" by (simp add: r(1) c)
  show "snd (compute_slowness results h) (results ! 1) ''slowness'' = Some (PyStr ''2.0x'')"
    using bd by (simp add: r(1) c)
  show "snd (compute_slowness results h) (results ! 3) ''slowness'' = Some (PyStr ''3.0x'')"
    by (simp add: r(1) c eval_nat_numeral)
next
  assume "map (\<lambda>r. h r ''duration'') results =
      [Some (PyFloat (Finite False 3)), Some (PyFloat (Finite False 1))]"
  then obtain a b where r: "results = [a, b]"
    "h a ''duration'' = Some (PyFloat (Finite False 3))"
    "h b ''duration'' = Some (PyFloat (Finite False 1))"
    by (auto simp: map_eq_Cons_conv)
  from compute_third [of h a b] r
  show "snd (compute_slowness results h) (results ! 1) ''slowness'' = Some (PyStr ''0.33x'')"
    by simp
qed

theorem slowness_at_odd_index_witness:
  "odd (1::nat) \<and>
   1 < length [0::nat, 1, 2, 3] \<and>
   ratio [0, 1, 2, 3]
     (heap_of [measurement ''a'' (Finite False 2), measurement ''b'' (Finite False 4),
               measurement ''c'' (Finite False 1), measurement ''d'' (Finite False 3)]) 1 \<noteq> None \<and>
   [0::nat, 1, 2, 3] ! 3 \<noteq> [0, 1, 2, 3] ! 1 \<and>
   snd (compute_slowness [0, 1, 2, 3]
     (heap_of [measurement ''a'' (Finite False 2), measurement ''b'' (Finite False 4),
               measurement ''c'' (Finite False 1), measurement ''d'' (Finite False 3)])) 1
     ''slowness'' = Some (PyStr ''2.0x'') \<and>
   snd (compute_slowness [0, 1, 2, 3]
     (heap_of [measurement ''a'' (Finite False 2), measurement ''b'' (Finite False 4),
               measurement ''c'' (Finite False 1), measurement ''d'' (Finite False 3)])) 3
     ''slowness'' = Some (PyStr ''3.0x'') \<and>
   snd (compute_slowness [0, 1]
     (heap_of [measurement ''a'' (Finite False 3), measurement ''b'' (Finite False 1)])) 1
     ''slowness'' = Some (PyStr ''0.33x'')"
proof -
  let ?h = "heap_of [measurement ''a'' (Finite False 2), measurement ''b'' (Finite False 4),
               measurement ''c'' (Finite False 1), measurement ''d'' (Finite False 3)]"
  let ?g = "heap_of [measurement ''a'' (Finite False 3), measurement ''b'' (Finite False 1)]"
  let ?rs = "[0::nat, 1, 2, 3]"
  have m: "map (\<lambda>r. ?h r ''duration'') ?rs =
      [Some (PyFloat (Finite False 2)), Some (PyFloat (Finite False 4)),
       Some (PyFloat (Finite False 1)), Some (PyFloat (Finite False 3))]"
    by (simp add: measurement_def heap_of_def)
  have g: "map (\<lambda>r. ?g r ''duration'') [0::nat, 1] =
      [Some (PyFloat (Finite False 3)), Some (PyFloat (Finite False 1))]"
    by (simp add: measurement_def heap_of_def)
  have "\<exists>r. ratio ?rs ?h 1 = Some r \<and> float_repr (float_round r 2) @ ''x'' = ''2.0x''"
    using ratio_from_slowness_of [of ?h ?rs 1 "PyFloat (Finite False 4)" "PyFloat (Finite False 2)"
        "''2.0x''"] slowness_of_4_2
    by (simp add: measurement_def heap_of_def)
  then have r: "ratio ?rs ?h 1 \<noteq> None" by auto
  then have p: "\<forall>j\<le>1. odd j \<longrightarrow> ratio ?rs ?h j \<noteq> None"
    by (auto simp: le_Suc_eq)
  have q: "\<forall>j<length ?rs. 1 < j \<and> odd j \<longrightarrow> ?rs ! j \<noteq> ?rs ! 1"
  proof (intro allI impI)
    fix j assume "j < length ?rs" and j: "1 < j \<and> odd j"
    then have "j = 2 \<or> j = 3" by auto
    with j show "?rs ! j \<noteq> ?rs ! 1" by auto
  qed
  from slowness_at_odd_index [of 1 ?rs ?h] p q
  have 0: "\<exists>r. ratio ?rs ?h 1 = Some r \<and>
      snd (compute_slowness ?rs ?h) (?rs ! 1) ''slowness'' =
        Some (PyStr (float_repr (float_round r 2) @ ''x''))"
    by simp
  from slowness_at_odd_index [of 1 ?rs ?h] m
  have 1: "snd (compute_slowness ?rs ?h) (?rs ! 1) ''slowness'' = Some (PyStr ''2.0x'')"
    and 3: "snd (compute_slowness ?rs ?h) (?rs ! 3) ''slowness'' = Some (PyStr ''3.0x'')"
    by blast+
  from slowness_at_odd_index [of 1 "[0, 1]" ?g] g
  have 2: "snd (compute_slowness [0, 1] ?g) ([0, 1] ! 1) ''slowness'' = Some (PyStr ''0.33x'')"
    by blast
  from 0 have "ratio ?rs ?h 1 \<noteq> None" by auto
  with 1 3 2 show ?thesis by simp
qed

text \<open>
  C9. For entries that carry a name, a float duration and a slowness, \<open>print_results\<close>
  returns normally exactly when no even-indexed entry that is followed by another entry has
  a zero duration; otherwise it raises \<open>ZeroDivisionError\<close> and prints nothing. Two
  entries with durations \<open>0.0\<close> and \<open>1.0\<close> are such an input.
\<close>

theorem print_results_zero_division:
  assumes "\<forall>r\<in>set results. well_formed (h r)"
  shows "fst (print_results results h out) =
           (if \<exists>k. 2 * k + 1 < length results \<and> zero_duration (h (results ! (2 * k)))
            then Some ZeroDivisionError else None) \<and>
         (fst (print_results results h out) \<noteq> None \<longrightarrow>
            snd (snd (print_results results h out)) = out)"
proof -
  define Z where
    "Z \<longleftrightarrow> (\<exists>k. 2 * k + 1 < length results \<and> zero_duration (h (results ! (2 * k))))"
  obtain eo h' where c: "compute_slowness results h = (eo, h')"
    by (cases "compute_slowness results h")
  from rows_after_compute [OF assms] c obtain data where d: "rows_of (map h' results) = Inr data"
    by auto
  from assms have "\<forall>r\<in>set results. has_float_duration (h r)" by (simp add: well_formed_def)
  from compute_outcome [OF this] c
  have eo: "eo = (if Z then Some ZeroDivisionError else None)" by (simp add: Z_def)
  have "fst (print_results results h out) = (if Z then Some ZeroDivisionError else None) \<and>
         (fst (print_results results h out) \<noteq> None \<longrightarrow>
            snd (snd (print_results results h out)) = out)"
  proof (cases Z)
    case True
    with c eo show ?thesis by (simp add: print_results_def)
  next
    case False
    with c d eo show ?thesis by (simp add: print_results_def)
  qed
  then show ?thesis unfolding Z_def .
qed

theorem print_results_zero_division_witness:
  "well_formed (heap_of [measurement ''A'' (Finite False 0), measurement ''B'' (Finite False 1)] 0) \<and>
   well_formed (heap_of [measurement ''A'' (Finite False 0), measurement ''B'' (Finite False 1)] 1) \<and>
   zero_duration (heap_of [measurement ''A'' (Finite False 0), measurement ''B'' (Finite False 1)] 0) \<and>
   fst (print_results [0, 1]
          (heap_of [measurement ''A'' (Finite False 0), measurement ''B'' (Finite False 1)]) []) =
     Some ZeroDivisionError \<and>
   snd (snd (print_results [0, 1]
          (heap_of [measurement ''A'' (Finite False 0), measurement ''B'' (Finite False 1)]) [])) = []"
proof -
  let ?h = "heap_of [measurement ''A'' (Finite False 0), measurement ''B'' (Finite False 1)]"
  let ?rs = "[0::nat, 1]"
  have w0: "well_formed (?h 0)" and w1: "well_formed (?h 1)"
    by (simp_all add: heap_of_def wf_measurement)
  then have wf: "\<forall>r\<in>set ?rs. well_formed (?h r)" by simp
  have zd: "zero_duration (?h 0)"
    by (simp add: zero_duration_def measurement_def heap_of_def)
  then have z: "\<exists>k. 2 * k + 1 < length ?rs \<and> zero_duration (?h (?rs ! (2 * k)))"
    by (intro exI [of _ 0]) simp
  from print_results_zero_division [OF wf, of "[]"] z
  have "fst (print_results ?rs ?h []) = Some ZeroDivisionError"
    and "snd (snd (print_results ?rs ?h [])) = []"
    by (simp_all only: if_True) simp_all
  with w0 w1 zd show ?thesis by simp
qed

text \<open>
  C3, as the claim states it, fails: an even-indexed entry is not left without a slowness,
  it keeps the slowness it came with. With two entries built as \<open>run_benchmark\<close> builds
  them (placeholder slowness \<open>"0"\<close>) and durations 1.0 and 2.5, entry 0 still has \<open>"0"\<close>
  after the computation and the report row of A shows \<open>"0"\<close>. And when the same object
  sits at indices 0 and 1, the write at index 1 gives the entry at index 0 the slowness
  \<open>"1.0x"\<close>.
\<close>

theorem even_index_slowness_counterexample:
  "snd (compute_slowness [0, 1]
      (heap_of [measurement ''A'' (Finite False 1), measurement ''B'' (Finite False (5 / 2))])) 0
     ''slowness'' = Some (PyStr ''0'') \<and>
   print_results [0, 1]
      (heap_of [measurement ''A'' (Finite False 1), measurement ''B'' (Finite False (5 / 2))]) [] =
     (None,
      heap_of [measurement ''A'' (Finite False 1),
               (measurement ''B'' (Finite False (5 / 2)))(''slowness'' \<mapsto> PyStr ''2.5x'')],
      [tabulate [[PyStr ''A'', PyFloat (Finite False 1), PyStr ''0''],
                 [PyStr ''B'', PyFloat (Finite False (5 / 2)), PyStr ''2.5x'']]]) \<and>
   fst (compute_slowness [0, 0] (heap_of [measurement ''A'' (Finite False 1)])) = None \<and>
   snd (compute_slowness [0, 0] (heap_of [measurement ''A'' (Finite False 1)])) 0
     ''slowness'' = Some (PyStr ''1.0x'')"
proof -
  let ?a = "measurement ''A'' (Finite False 1)"
  let ?b = "measurement ''B'' (Finite False (5 / 2))"
  let ?h = "heap_of [?a, ?b]"
  have p: "print_results [0, 1] ?h [] =
     (None, ?h(1 := (?h 1)(''slowness'' \<mapsto> PyStr ''2.5x'')),
      [] @ [tabulate [[PyStr ''A'', PyFloat (Finite False 1), PyStr ''0''],
                 [PyStr ''B'', PyFloat (Finite False (5 / 2)), PyStr ''2.5x'']]])"
    by (rule print_two) (simp_all add: measurement_def heap_of_def)
  have e: "?h(1 := (?h 1)(''slowness'' \<mapsto> PyStr ''2.5x'')) =
      heap_of [?a, ?b(''slowness'' \<mapsto> PyStr ''2.5x'')]"
    by (rule ext) (simp add: heap_of_def nth_Cons')
  have "snd (compute_slowness [0, 1] ?h) 0 = ?h 0"
    by (rule compute_untouched) (simp add: less_Suc_eq)
  then have c: "snd (compute_slowness [0, 1] ?h) 0 ''slowness'' = Some (PyStr ''0'')"
    by (simp add: heap_of_def measurement_def)
  have al: "compute_slowness [0, 0] (heap_of [?a]) =
      (None, (heap_of [?a])(0 := (heap_of [?a] 0)(''slowness'' \<mapsto> PyStr ''1.0x'')))"
    by (simp add: compute_slowness_def step_even step_odd getitem_def heap_of_def
        measurement_def slowness_of_1_1)
  from p e c al show ?thesis by simp
qed

text \<open>
  C3, amended. The slowness computation leaves an even-indexed entry as it was, provided
  the entry is not the same object as an odd-indexed entry of the list: it keeps the
  slowness it had before (the catalog's placeholder \<open>"0"\<close>), also when the computation
  raises, and when the report is printed its row is the entry's name, duration and that
  earlier slowness. In the two-entry scenario with durations 1.0 and 2.5 and the placeholder
  on A, the report rows are \<open>A, 1.0, "0"\<close> and \<open>B, 2.5, "2.5x"\<close>.
\<close>

theorem even_index_unchanged:
  "(even i \<and> i < length results \<and>
    (\<forall>j<length results. odd j \<longrightarrow> results ! j \<noteq> results ! i) \<longrightarrow>
      snd (compute_slowness results h) (results ! i) = h (results ! i) \<and>
      fst (snd (print_results results h out)) (results ! i) = h (results ! i) \<and>
      (\<forall>h' out'. print_results results h out = (None, h', out') \<longrightarrow>
         (\<exists>data. out' = out @ [tabulate data] \<and> length data = length results \<and>
                 row_of (h (results ! i)) = Inr (data ! i)))) \<and>
   (h a ''name'' = Some (PyStr ''A'') \<and> h a ''duration'' = Some (PyFloat (Finite False 1)) \<and>
    h a ''slowness'' = Some (PyStr ''0'') \<and>
    h b ''name'' = Some (PyStr ''B'') \<and>
    h b ''duration'' = Some (PyFloat (Finite False (5 / 2))) \<longrightarrow>
      print_results [a, b] h out =
        (None, h(b := (h b)(''slowness'' \<mapsto> PyStr ''2.5x'')),
         out @ [tabulate [[PyStr ''A'', PyFloat (Finite False 1), PyStr ''0''],
                          [PyStr ''B'', PyFloat (Finite False (5 / 2)), PyStr ''2.5x'']]]))"
proof (intro conjI impI allI)
  assume a: "even i \<and> i < length results \<and>
    (\<forall>j<length results. odd j \<longrightarrow> results ! j \<noteq> results ! i)"
  then show u: "snd (compute_slowness results h) (results ! i) = h (results ! i)"
    by (intro compute_untouched) simp
  then show "fst (snd (print_results results h out)) (results ! i) = h (results ! i)"
    by (simp add: print_results_heap)
  fix h' out'
  assume p: "print_results results h out = (None, h', out')"
  from print_results_NoneD [OF p] obtain data where
    d: "compute_slowness results h = (None, h')" "rows_of (map h' results) = Inr data"
       "out' = out @ [tabulate data]" by blast
  from rows_of_Inr [OF d(2)] have len: "length data = length results"
    and row: "\<forall>j<length results. row_of (h' (results ! j)) = Inr (data ! j)"
    by simp_all
  from u d(1) have "h' (results ! i) = h (results ! i)" by simp
  with row a have "row_of (h (results ! i)) = Inr (data ! i)" by auto
  with d(3) len show "\<exists>data. out' = out @ [tabulate data] \<and> length data = length results \<and>
                 row_of (h (results ! i)) = Inr (data ! i)" by blast
next
  assume "h a ''name'' = Some (PyStr ''A'') \<and> h a ''duration'' = Some (PyFloat (Finite False 1)) \<and>
    h a ''slowness'' = Some (PyStr ''0'') \<and>
    h b ''name'' = Some (PyStr ''B'') \<and>
    h b ''duration'' = Some (PyFloat (Finite False (5 / 2)))"
  then show "print_results [a, b] h out =
        (None, h(b := (h b)(''slowness'' \<mapsto> PyStr ''2.5x'')),
         out @ [tabulate [[PyStr ''A'', PyFloat (Finite False 1), PyStr ''0''],
                          [PyStr ''B'', PyFloat (Finite False (5 / 2)), PyStr ''2.5x'']]])"
    by (intro print_two) simp_all
qed

theorem even_index_unchanged_witness:
  "even (0::nat) \<and> 0 < length [0::nat, 1] \<and> [0::nat, 1] ! 1 \<noteq> [0, 1] ! 0 \<and>
   heap_of [measurement ''A'' (Finite False 1), measurement ''B'' (Finite False (5 / 2))] 0 ''name'' =
     Some (PyStr ''A'') \<and>
   heap_of [measurement ''A'' (Finite False 1), measurement ''B'' (Finite False (5 / 2))] 0
     ''duration'' = Some (PyFloat (Finite False 1)) \<and>
   heap_of [measurement ''A'' (Finite False 1), measurement ''B'' (Finite False (5 / 2))] 0
     ''slowness'' = Some (PyStr ''0'') \<and>
   heap_of [measurement ''A'' (Finite False 1), measurement ''B'' (Finite False (5 / 2))] 1 ''name'' =
     Some (PyStr ''B'') \<and>
   heap_of [measurement ''A'' (Finite False 1), measurement ''B'' (Finite False (5 / 2))] 1
     ''duration'' = Some (PyFloat (Finite False (5 / 2))) \<and>
   snd (compute_slowness [0, 1]
      (heap_of [measurement ''A'' (Finite False 1), measurement ''B'' (Finite False (5 / 2))])) 0 =
     measurement ''A'' (Finite False 1) \<and>
   snd (snd (print_results [0, 1]
      (heap_of [measurement ''A'' (Finite False 1), measurement ''B'' (Finite False (5 / 2))]) [])) =
     [tabulate [[PyStr ''A'', PyFloat (Finite False 1), PyStr ''0''],
                [PyStr ''B'', PyFloat (Finite False (5 / 2)), PyStr ''2.5x'']]]"
proof -
  let ?a = "measurement ''A'' (Finite False 1)"
  let ?b = "measurement ''B'' (Finite False (5 / 2))"
  let ?h = "heap_of [?a, ?b]"
  let ?rs = "[0::nat, 1]"
  have k: "?h 0 ''name'' = Some (PyStr ''A'') \<and> ?h 0 ''duration'' = Some (PyFloat (Finite False 1)) \<and>
    ?h 0 ''slowness'' = Some (PyStr ''0'') \<and>
    ?h 1 ''name'' = Some (PyStr ''B'') \<and>
    ?h 1 ''duration'' = Some (PyFloat (Finite False (5 / 2)))"
    by (simp add: measurement_def heap_of_def)
  have e: "even (0::nat) \<and> 0 < length ?rs \<and>
      (\<forall>j<length ?rs. odd j \<longrightarrow> ?rs ! j \<noteq> ?rs ! 0)"
    by (simp add: less_Suc_eq)
  from even_index_unchanged [of 0 ?rs ?h "[]" 0 1] k e
  have "snd (compute_slowness ?rs ?h) (?rs ! 0) = ?h (?rs ! 0)"
    and "print_results ?rs ?h [] =
        (None, ?h(1 := (?h 1)(''slowness'' \<mapsto> PyStr ''2.5x'')),
         [] @ [tabulate [[PyStr ''A'', PyFloat (Finite False 1), PyStr ''0''],
                          [PyStr ''B'', PyFloat (Finite False (5 / 2)), PyStr ''2.5x'']]])"
    by blast+
  then have "snd (compute_slowness ?rs ?h) 0 = ?a"
    and "snd (snd (print_results ?rs ?h [])) =
       [tabulate [[PyStr ''A'', PyFloat (Finite False 1), PyStr ''0''],
                          [PyStr ''B'', PyFloat (Finite False (5 / 2)), PyStr ''2.5x'']]]"
    by (simp_all add: heap_of_def)
  with k show ?thesis by simp
qed

text \<open>
  C4, as the claim states it, fails: with three entries of which the last has no
  \<open>slowness\<close> key, the computation returns normally and leaves that key unset, and
  rendering then raises \<open>KeyError\<close> on it; nothing is printed. And in the list \<open>[a, b, b]\<close>
  of odd length the final entry is the object at index 1: its slowness \<open>"0"\<close> is
  overwritten with \<open>"3.0x"\<close>.
\<close>

theorem odd_length_render_counterexample:
  "fst (compute_slowness [0, 1, 2]
      (heap_of [measurement ''A'' (Finite False 1), measurement ''B'' (Finite False (5 / 2)),
                [''name'' \<mapsto> PyStr ''C'', ''duration'' \<mapsto> PyFloat (Finite False 3)]])) = None \<and>
   snd (compute_slowness [0, 1, 2]
      (heap_of [measurement ''A'' (Finite False 1), measurement ''B'' (Finite False (5 / 2)),
                [''name'' \<mapsto> PyStr ''C'', ''duration'' \<mapsto> PyFloat (Finite False 3)]])) 2
     ''slowness'' = None \<and>
   fst (print_results [0, 1, 2]
      (heap_of [measurement ''A'' (Finite False 1), measurement ''B'' (Finite False (5 / 2)),
                [''name'' \<mapsto> PyStr ''C'', ''duration'' \<mapsto> PyFloat (Finite False 3)]]) []) =
     Some (KeyError ''slowness'') \<and>
   snd (snd (print_results [0, 1, 2]
      (heap_of [measurement ''A'' (Finite False 1), measurement ''B'' (Finite False (5 / 2)),
                [''name'' \<mapsto> PyStr ''C'', ''duration'' \<mapsto> PyFloat (Finite False 3)]]) [])) = [] \<and>
   heap_of [measurement ''A'' (Finite False 1), measurement ''B'' (Finite False 3)]
     (last [0, 1, 1]) ''slowness'' = Some (PyStr ''0'') \<and>
   snd (compute_slowness [0, 1, 1]
      (heap_of [measurement ''A'' (Finite False 1), measurement ''B'' (Finite False 3)]))
     (last [0, 1, 1]) ''slowness'' = Some (PyStr ''3.0x'')"
proof -
  let ?a = "measurement ''A'' (Finite False 1)"
  let ?b = "measurement ''B'' (Finite False (5 / 2))"
  let ?c = "[''name'' \<mapsto> PyStr ''C'', ''duration'' \<mapsto> PyFloat (Finite False 3)]"
  let ?h = "heap_of [?a, ?b, ?c]"
  let ?g = "heap_of [?a, measurement ''B'' (Finite False 3)]"
  have c: "compute_slowness [0, 1, 2] ?h =
      (None, ?h(1 := (?h 1)(''slowness'' \<mapsto> PyStr ''2.5x'')))"
    by (simp add: compute_slowness_def step_even step_odd getitem_def heap_of_def
        measurement_def slowness_of_25_1)
  then have p: "print_results [0, 1, 2] ?h [] =
      (Some (KeyError ''slowness''), ?h(1 := (?h 1)(''slowness'' \<mapsto> PyStr ''2.5x'')), [])"
    by (simp add: print_results_def row_of_def getitem_def measurement_def heap_of_def)
  have g: "compute_slowness [0, 1, 1] ?g =
      (None, ?g(1 := (?g 1)(''slowness'' \<mapsto> PyStr ''3.0x'')))"
    by (simp add: compute_slowness_def step_even step_odd getitem_def heap_of_def
        measurement_def slowness_of_3_1)
  from c p g show ?thesis by (simp add: heap_of_def measurement_def)
qed

text \<open>
  C4, amended. For a list of odd length whose final entry is not the same object as an
  odd-indexed entry, the slowness computation leaves the final entry as it was. Rendering
  does not degrade on an unset slowness: if the final entry has no \<open>slowness\<close> key,
  \<open>print_results\<close> raises and prints nothing; the exception is \<open>KeyError('slowness')\<close> when
  the final entry has a name and a float duration, the entries before it carry a name, a
  float duration and a slowness, and no even-indexed entry that is followed by another has
  a zero duration. If every entry carries a name, a float duration and a slowness, and no
  even-indexed entry that is followed by another has a zero duration, the report is
  printed, one row per entry, and the final row is the final entry's name, duration and
  earlier slowness.
\<close>

theorem odd_length_last_entry:
  "odd (length results) \<and>
   (\<forall>j<length results. odd j \<longrightarrow> results ! j \<noteq> last results) \<longrightarrow>
     snd (compute_slowness results h) (last results) = h (last results) \<and>
     (h (last results) ''slowness'' = None \<longrightarrow>
        fst (print_results results h out) \<noteq> None \<and>
        snd (snd (print_results results h out)) = out) \<and>
     (h (last results) ''slowness'' = None \<and> h (last results) ''name'' \<noteq> None \<and>
      has_float_duration (h (last results)) \<and>
      (\<forall>r\<in>set (butlast results). well_formed (h r)) \<and>
      \<not> (\<exists>k. 2 * k + 1 < length results \<and> zero_duration (h (results ! (2 * k)))) \<longrightarrow>
        fst (print_results results h out) = Some (KeyError ''slowness'')) \<and>
     ((\<forall>r\<in>set results. well_formed (h r)) \<and>
      \<not> (\<exists>k. 2 * k + 1 < length results \<and> zero_duration (h (results ! (2 * k)))) \<longrightarrow>
        (\<exists>data. print_results results h out =
                  (None, snd (compute_slowness results h), out @ [tabulate data]) \<and>
                length data = length results \<and>
                row_of (h (last results)) = Inr (last data)))"
proof (intro impI conjI)
  assume a: "odd (length results) \<and>
   (\<forall>j<length results. odd j \<longrightarrow> results ! j \<noteq> last results)"
  then have o: "odd (length results)"
    and d: "\<forall>j<length results. odd j \<longrightarrow> results ! j \<noteq> last results" by simp_all
  from d show l: "snd (compute_slowness results h) (last results) = h (last results)"
    by (rule compute_untouched)
  from o have ne: "results \<noteq> []" by auto
  {
    assume "h (last results) ''slowness'' = None"
    with l have "snd (compute_slowness results h) (last results) ''slowness'' = None" by simp
    from print_results_unset [OF ne this, of out]
    show "fst (print_results results h out) \<noteq> None"
      and "snd (snd (print_results results h out)) = out" by simp_all
  }
  {
    assume "h (last results) ''slowness'' = None \<and> h (last results) ''name'' \<noteq> None \<and>
      has_float_duration (h (last results)) \<and>
      (\<forall>r\<in>set (butlast results). well_formed (h r)) \<and>
      \<not> (\<exists>k. 2 * k + 1 < length results \<and> zero_duration (h (results ! (2 * k))))"
    with ne d show "fst (print_results results h out) = Some (KeyError ''slowness'')"
      by (intro print_results_key_error) simp_all
  }
  assume "(\<forall>r\<in>set results. well_formed (h r)) \<and>
      \<not> (\<exists>k. 2 * k + 1 < length results \<and> zero_duration (h (results ! (2 * k))))"
  then obtain data where p: "print_results results h out =
           (None, snd (compute_slowness results h), out @ [tabulate data])"
    "rows_of (map (snd (compute_slowness results h)) results) = Inr data"
    using print_results_well_formed [of results h out] by blast
  from rows_of_Inr [OF p(2)] have len: "length data = length results"
    and row: "\<forall>j<length results.
        row_of (snd (compute_slowness results h) (results ! j)) = Inr (data ! j)"
    by simp_all
  from ne len have dne: "data \<noteq> []" by auto
  from ne have "length results - 1 < length results" by (cases results) simp_all
  with row have "row_of (snd (compute_slowness results h) (results ! (length results - 1))) =
      Inr (data ! (length results - 1))" by blast
  moreover from ne have "results ! (length results - 1) = last results"
    by (simp add: last_conv_nth)
  moreover have "data ! (length results - 1) = last data"
    using dne len by (simp add: last_conv_nth)
  ultimately have "row_of (h (last results)) = Inr (last data)" using l by simp
  with p(1) len show "\<exists>data. print_results results h out =
                  (None, snd (compute_slowness results h), out @ [tabulate data]) \<and>
                length data = length results \<and>
                row_of (h (last results)) = Inr (last data)" by blast
qed

theorem odd_length_last_entry_witness:
  "odd (length [0::nat, 1, 2]) \<and> [0::nat, 1, 2] ! 1 \<noteq> last [0, 1, 2] \<and>
   well_formed (measurement ''A'' (Finite False 1)) \<and>
   well_formed (measurement ''B'' (Finite False (5 / 2))) \<and>
   well_formed (measurement ''C'' (Finite False 3)) \<and>
   \<not> zero_duration (measurement ''A'' (Finite False 1)) \<and>
   snd (compute_slowness [0, 1, 2]
      (heap_of [measurement ''A'' (Finite False 1), measurement ''B'' (Finite False (5 / 2)),
                measurement ''C'' (Finite False 3)])) 2 = measurement ''C'' (Finite False 3) \<and>
   fst (print_results [0, 1, 2]
      (heap_of [measurement ''A'' (Finite False 1), measurement ''B'' (Finite False (5 / 2)),
                measurement ''C'' (Finite False 3)]) []) = None \<and>
   heap_of [measurement ''A'' (Finite False 1), measurement ''B'' (Finite False (5 / 2)),
            [''name'' \<mapsto> PyStr ''C'', ''duration'' \<mapsto> PyFloat (Finite False 3)]] 2
     ''slowness'' = None \<and>
   heap_of [measurement ''A'' (Finite False 1), measurement ''B'' (Finite False (5 / 2)),
            [''name'' \<mapsto> PyStr ''C'', ''duration'' \<mapsto> PyFloat (Finite False 3)]] 2
     ''name'' \<noteq> None \<and>
   has_float_duration
     (heap_of [measurement ''A'' (Finite False 1), measurement ''B'' (Finite False (5 / 2)),
            [''name'' \<mapsto> PyStr ''C'', ''duration'' \<mapsto> PyFloat (Finite False 3)]] 2) \<and>
   fst (print_results [0, 1, 2]
      (heap_of [measurement ''A'' (Finite False 1), measurement ''B'' (Finite False (5 / 2)),
                [''name'' \<mapsto> PyStr ''C'', ''duration'' \<mapsto> PyFloat (Finite False 3)]]) []) =
     Some (KeyError ''slowness'') \<and>
   snd (snd (print_results [0, 1, 2]
      (heap_of [measurement ''A'' (Finite False 1), measurement ''B'' (Finite False (5 / 2)),
                [''name'' \<mapsto> PyStr ''C'', ''duration'' \<mapsto> PyFloat (Finite False 3)]]) [])) = []"
proof -
  let ?a = "measurement ''A'' (Finite False 1)"
  let ?b = "measurement ''B'' (Finite False (5 / 2))"
  let ?c = "measurement ''C'' (Finite False 3)"
  let ?u = "[''name'' \<mapsto> PyStr ''C'', ''duration'' \<mapsto> PyFloat (Finite False 3)]"
  let ?h = "heap_of [?a, ?b, ?c]"
  let ?g = "heap_of [?a, ?b, ?u]"
  let ?rs = "[0::nat, 1, 2]"
  have o: "odd (length ?rs) \<and> (\<forall>j<length ?rs. odd j \<longrightarrow> ?rs ! j \<noteq> last ?rs)"
    by (auto simp: less_Suc_eq)
  have wf: "\<forall>r\<in>set ?rs. well_formed (?h r)" by (simp add: wf_measurement heap_of_def)
  have wg: "\<forall>r\<in>set (butlast ?rs). well_formed (?g r)" by (simp add: wf_measurement heap_of_def)
  have nz: "\<not> zero_duration ?a" by (simp add: zero_duration_def measurement_def)
  have z: "\<not> (\<exists>k. 2 * k + 1 < length ?rs \<and> zero_duration (H (?rs ! (2 * k))))"
    if "H 0 = ?a" for H :: heap
  proof
    assume "\<exists>k. 2 * k + 1 < length ?rs \<and> zero_duration (H (?rs ! (2 * k)))"
    then obtain k where k: "2 * k + 1 < length ?rs"
      "zero_duration (H (?rs ! (2 * k)))" by blast
    from k(1) have "k = 0" by simp
    with k(2) nz that show False by simp
  qed
  have zh: "\<not> (\<exists>k. 2 * k + 1 < length ?rs \<and> zero_duration (?h (?rs ! (2 * k))))"
    by (rule z) (simp add: heap_of_def)
  have zg: "\<not> (\<exists>k. 2 * k + 1 < length ?rs \<and> zero_duration (?g (?rs ! (2 * k))))"
    by (rule z) (simp add: heap_of_def)
  have un: "?g (last ?rs) ''slowness'' = None" "?g (last ?rs) ''name'' \<noteq> None"
    "has_float_duration (?g (last ?rs))"
    by (simp_all add: heap_of_def has_float_duration_def)
  from odd_length_last_entry [of ?rs ?h "[]"] o wf zh
  have 1: "snd (compute_slowness ?rs ?h) (last ?rs) = ?h (last ?rs)"
    and 2: "\<exists>data. print_results ?rs ?h [] =
              (None, snd (compute_slowness ?rs ?h), [] @ [tabulate data]) \<and>
              length data = length ?rs \<and> row_of (?h (last ?rs)) = Inr (last data)"
    by blast+
  from 2 have 3: "fst (print_results ?rs ?h []) = None" by auto
  from odd_length_last_entry [of ?rs ?g "[]"] o un wg zg
  have 4: "fst (print_results ?rs ?g []) = Some (KeyError ''slowness'')"
    and 6: "snd (snd (print_results ?rs ?g [])) = []" by blast+
  from 1 have 5: "snd (compute_slowness ?rs ?h) 2 = ?c" by (simp add: heap_of_def)
  from un have un': "?g 2 ''slowness'' = None" "?g 2 ''name'' \<noteq> None"
    "has_float_duration (?g 2)" by simp_all
  from nz 5 3 un' 4 6 show ?thesis by (simp add: wf_measurement)
qed

section \<open>Properties of the runner\<close>

subsection \<open>The timed interval\<close>

lemma float_of_rat_4: "float_of_rat 4 = Finite False 4" by code_simp
lemma float_of_rat_8: "float_of_rat 8 = Finite False 8" by code_simp
lemma float_sub_8_4: "float_sub (Finite False 8) (Finite False 4) = Finite False 4" by code_simp

lemma perform_cases:
  "perform E a w = (eo, w') \<Longrightarrow>
   (eo = Some OperationalError \<and> w' = w \<and> store_down E (clock w)) \<or>
   (eo = None \<and> \<not> store_down E (clock w) \<and>
    w' = w\<lparr>clock := clock w + elapsed E a, journal := journal w @ [a]\<rparr>)"
  by (auto simp: perform_def split: if_splits)

lemma seeded_call:
  assumes "requires_data f" "call f E w = (None, w')"
  shows "w' = w\<lparr>clock := clock w + elapsed E Populate + elapsed E (Pool f 1000 100000),
               journal := journal w @ [Populate, Pool f 1000 100000]\<rparr>"
  using assms
  by (cases f)
     (auto simp: requires_data_def run_sqlalchemy_select_def run_psycopg_select_def
        run_sqlalchemy_update_def run_psycopg_update_def populate_def perform_def
        thread_pool_def split: if_splits)

subsection \<open>The batch and its futures\<close>

lemma drain_map: "drain E f t queue = map (invoke E f t) queue"
  by (induction queue) simp_all

lemma submit_all_length: "length (submit_all E f t n) = n"
  by (simp add: submit_all_def drain_map)

lemma submit_all_nth: "i < n \<Longrightarrow> submit_all E f t n ! i = invoke E f t i"
  by (simp add: submit_all_def drain_map)

lemma invoke_sibling:
  "j \<noteq> i \<Longrightarrow>
   invoke (E\<lparr>invocation_fails := (invocation_fails E)(f := (invocation_fails E f)(i := b))\<rparr>) f t j =
   invoke E f t j"
  by (simp add: invoke_def)

subsection \<open>Failed invocations leave no trace\<close>

lemma perform_ignores_failures [simp]:
  "perform (E\<lparr>invocation_fails := g\<rparr>) a w = perform E a w"
  by (simp add: perform_def)

lemma thread_pool_ignores_failures [simp]:
  "snd (thread_pool (E\<lparr>invocation_fails := g\<rparr>) f c n w) = snd (thread_pool E f c n w)"
  by (simp add: thread_pool_def)

lemma call_ignores_failures [simp]:
  "call f (E\<lparr>invocation_fails := g\<rparr>) w = call f E w"
  by (cases f)
     (simp_all add: run_sqlalchemy_select_def run_psycopg_select_def run_sqlalchemy_update_def
        run_psycopg_update_def run_sqlalchemy_add_all_def psycopg_executemany_def
        run_sqlalchemy_concurrent_add_def psycopg_concurrent_add_def populate_def
        thread_pool_def split: prod.splits option.splits)

lemma call_value_ignores_failures [simp]:
  "call_value v (E\<lparr>invocation_fails := g\<rparr>) w = call_value v E w"
  by (simp add: call_value_def split: pyval.splits)

lemma benchmark_worker_ignores_failures [simp]:
  "benchmark_worker (E\<lparr>invocation_fails := g\<rparr>) v w = benchmark_worker E v w"
  by (simp add: benchmark_worker_def split: prod.splits option.splits)

lemma benchmark_each_ignores_failures [simp]:
  "benchmark_each (E\<lparr>invocation_fails := g\<rparr>) rs h w = benchmark_each E rs h w"
  by (induction rs arbitrary: h w) (simp_all split: sum.splits prod.splits)

lemma run_benchmark_ignores_failures:
  "run_benchmark (E\<lparr>invocation_fails := g\<rparr>) w = run_benchmark E w"
  by (simp add: run_benchmark_def split: prod.splits option.splits)

text \<open>
  Every invocation of the worker of \<open>run_psycopg_update\<close> raises: its statement sets a column
  \<open>long_value\<close>, and the table has \<open>long_val\<close>.
\<close>

lemma psycopg_update_always_raises:
  "invoke E RunPsycopgUpdate t i =
     (if store_down E (t + started E RunPsycopgUpdate i) then Raised OperationalError
      else Raised ProgrammingError)"
  by (simp add: invoke_def table_columns_def)

lemma stmt_columns_known:
  "f \<noteq> RunPsycopgUpdate \<Longrightarrow> set (stmt_columns f) \<subseteq> set table_columns"
  by (cases f) (simp_all add: table_columns_def)

section \<open>Claims about the timed interval and the batch\<close>

text \<open>
  C1, as the claim states it, fails: the rows are seeded by the benchmark function itself,
  which \<open>benchmark_worker\<close> calls after its first clock reading. With a reset of 2 + 2
  seconds, a seeding of 3 and a batch of 1, the duration returned is 4.0, seeding included,
  and the journal has \<open>Populate\<close> after the first \<open>ClockRead\<close>.
\<close>

theorem seeding_inside_timer_counterexample:
  "elapsed \<lparr>elapsed = (\<lambda>a. if a = Populate then 3 else if a = DropAll \<or> a = CreateAll then 2 else 1),
            store_down = (\<lambda>t. False), started = (\<lambda>f i. 0), invocation_fails = (\<lambda>f i. False)\<rparr>
      (Pool RunPsycopgSelect 1000 100000) = 1 \<and>
   benchmark_worker
     \<lparr>elapsed = (\<lambda>a. if a = Populate then 3 else if a = DropAll \<or> a = CreateAll then 2 else 1),
      store_down = (\<lambda>t. False), started = (\<lambda>f i. 0), invocation_fails = (\<lambda>f i. False)\<rparr>
     (PyFunc RunPsycopgSelect) \<lparr>clock = 0, journal = [], stdout = []\<rparr> =
   (Inr (Finite False 4),
    \<lparr>clock = 8,
     journal = [DropAll, CreateAll, ClockRead, Populate, Pool RunPsycopgSelect 1000 100000,
                ClockRead],
     stdout = []\<rparr>)"
  by (simp add: benchmark_worker_def call_value_def perform_def perf_counter_def
      run_psycopg_select_def populate_def thread_pool_def float_of_rat_4 float_of_rat_8
      float_sub_8_4)

text \<open>
  C1, amended. For every entry that needs rows to work on, when \<open>benchmark_worker\<close>
  returns, the schema was dropped and created before the first clock reading, and the
  seeding and the batch lie between the two readings: the duration is the difference of the
  clock after reset, seeding and batch and the clock after the reset alone. It leaves out
  the schema reset and takes in the seeding.
\<close>

theorem benchmark_worker_timed_interval:
  "requires_data f \<and> benchmark_worker E (PyFunc f) w = (Inr t, w') \<longrightarrow>
     journal w' =
       journal w @ [DropAll, CreateAll, ClockRead, Populate, Pool f 1000 100000, ClockRead] \<and>
     t = float_sub
           (float_of_rat (clock w + elapsed E DropAll + elapsed E CreateAll +
                          elapsed E Populate + elapsed E (Pool f 1000 100000)))
           (float_of_rat (clock w + elapsed E DropAll + elapsed E CreateAll))"
proof
  assume h: "requires_data f \<and> benchmark_worker E (PyFunc f) w = (Inr t, w')"
  obtain e1 w1 where p1: "perform E DropAll w = (e1, w1)" by (cases "perform E DropAll w")
  obtain e2 w2 where p2: "perform E CreateAll w1 = (e2, w2)" by (cases "perform E CreateAll w1")
  obtain start w3 where c1: "perf_counter w2 = (start, w3)" by (cases "perf_counter w2")
  obtain e4 w4 where c: "call f E w3 = (e4, w4)" by (cases "call f E w3")
  from h p1 have n1: "e1 = None" by (cases e1) (simp_all add: benchmark_worker_def)
  from h p1 p2 n1 have n2: "e2 = None" by (cases e2) (simp_all add: benchmark_worker_def)
  note call_value_def [simp]
  from h p1 p2 c1 c n1 n2 have n4: "e4 = None"
    by (cases e4) (simp_all add: benchmark_worker_def)
  from perform_cases [OF p1] n1
  have w1: "w1 = w\<lparr>clock := clock w + elapsed E DropAll, journal := journal w @ [DropAll]\<rparr>"
    by simp
  from perform_cases [OF p2] n2
  have w2: "w2 = w1\<lparr>clock := clock w1 + elapsed E CreateAll, journal := journal w1 @ [CreateAll]\<rparr>"
    by simp
  from c1 have w3: "start = float_of_rat (clock w2)" "w3 = w2\<lparr>journal := journal w2 @ [ClockRead]\<rparr>"
    by (simp_all add: perf_counter_def)
  from h c n4 seeded_call [of f E w3 w4]
  have w4: "w4 = w3\<lparr>clock := clock w3 + elapsed E Populate + elapsed E (Pool f 1000 100000),
               journal := journal w3 @ [Populate, Pool f 1000 100000]\<rparr>" by simp
  from h p1 p2 c1 c n1 n2 n4
  have r: "t = float_sub (float_of_rat (clock w4)) start"
    "w' = w4\<lparr>journal := journal w4 @ [ClockRead]\<rparr>"
    by (simp_all add: benchmark_worker_def perf_counter_def)
  from r w4 w3 w2 w1
  show "journal w' =
       journal w @ [DropAll, CreateAll, ClockRead, Populate, Pool f 1000 100000, ClockRead] \<and>
     t = float_sub
           (float_of_rat (clock w + elapsed E DropAll + elapsed E CreateAll +
                          elapsed E Populate + elapsed E (Pool f 1000 100000)))
           (float_of_rat (clock w + elapsed E DropAll + elapsed E CreateAll))"
    by simp
qed

theorem benchmark_worker_timed_interval_witness:
  "requires_data RunPsycopgSelect \<and>
   fst (benchmark_worker
     \<lparr>elapsed = (\<lambda>a. if a = Populate then 3 else if a = DropAll \<or> a = CreateAll then 2 else 1),
      store_down = (\<lambda>t. False), started = (\<lambda>f i. 0), invocation_fails = (\<lambda>f i. False)\<rparr>
     (PyFunc RunPsycopgSelect) \<lparr>clock = 0, journal = [], stdout = []\<rparr>) = Inr (Finite False 4) \<and>
   journal (snd (benchmark_worker
     \<lparr>elapsed = (\<lambda>a. if a = Populate then 3 else if a = DropAll \<or> a = CreateAll then 2 else 1),
      store_down = (\<lambda>t. False), started = (\<lambda>f i. 0), invocation_fails = (\<lambda>f i. False)\<rparr>
     (PyFunc RunPsycopgSelect) \<lparr>clock = 0, journal = [], stdout = []\<rparr>)) =
     [DropAll, CreateAll, ClockRead, Populate, Pool RunPsycopgSelect 1000 100000, ClockRead]"
proof -
  let ?E = "\<lparr>elapsed = (\<lambda>a. if a = Populate then 3 else if a = DropAll \<or> a = CreateAll then 2 else (1::rat)),
      store_down = (\<lambda>t. False), started = (\<lambda>f i. 0), invocation_fails = (\<lambda>f i. False)\<rparr>"
  let ?w = "\<lparr>clock = 0, journal = [], stdout = []\<rparr>"
  have rd: "requires_data RunPsycopgSelect" by (simp add: requires_data_def)
  obtain r w' where b: "benchmark_worker ?E (PyFunc RunPsycopgSelect) ?w = (r, w')"
    by (cases "benchmark_worker ?E (PyFunc RunPsycopgSelect) ?w")
  then have "r = Inr (float_sub (float_of_rat 8) (float_of_rat 4))"
    by (auto simp: benchmark_worker_def call_value_def perform_def perf_counter_def
      run_psycopg_select_def populate_def thread_pool_def)
  then have r: "r = Inr (Finite False 4)"
    by (simp add: float_of_rat_4 float_of_rat_8 float_sub_8_4)
  with b rd benchmark_worker_timed_interval [of RunPsycopgSelect ?E ?w "Finite False 4" w']
  have "journal w' =
      journal ?w @ [DropAll, CreateAll, ClockRead, Populate, Pool RunPsycopgSelect 1000 100000, ClockRead]"
    by blast
  with b r rd show ?thesis by simp
qed

text \<open>
  C5, as the claim states it, fails: a failed invocation is recorded nowhere. In a world
  where invocation 7 of every worker raises, the future of invocation 7 of the batch holds
  the exception, and yet \<open>run_psycopg_select\<close> returns the same value and leaves the same
  world as in the world where no invocation raises, and the whole of \<open>run_benchmark\<close>
  returns, leaves and prints the same.
\<close>

theorem failed_invocation_counterexample:
  "fst (thread_pool
      \<lparr>elapsed = (\<lambda>a. 1), store_down = (\<lambda>t. False), started = (\<lambda>f i. 0),
       invocation_fails = (\<lambda>f i. i = 7)\<rparr>
      RunPsycopgSelect 1000 100000 \<lparr>clock = 0, journal = [], stdout = []\<rparr>) ! 7 =
     Raised OperationError \<and>
   fst (thread_pool
      \<lparr>elapsed = (\<lambda>a. 1), store_down = (\<lambda>t. False), started = (\<lambda>f i. 0),
       invocation_fails = (\<lambda>f i. False)\<rparr>
      RunPsycopgSelect 1000 100000 \<lparr>clock = 0, journal = [], stdout = []\<rparr>) ! 7 = Returned \<and>
   run_psycopg_select
      \<lparr>elapsed = (\<lambda>a. 1), store_down = (\<lambda>t. False), started = (\<lambda>f i. 0),
       invocation_fails = (\<lambda>f i. i = 7)\<rparr>
      \<lparr>clock = 0, journal = [], stdout = []\<rparr> =
     (None, \<lparr>clock = 2, journal = [Populate, Pool RunPsycopgSelect 1000 100000], stdout = []\<rparr>) \<and>
   run_psycopg_select
      \<lparr>elapsed = (\<lambda>a. 1), store_down = (\<lambda>t. False), started = (\<lambda>f i. 0),
       invocation_fails = (\<lambda>f i. False)\<rparr>
      \<lparr>clock = 0, journal = [], stdout = []\<rparr> =
     (None, \<lparr>clock = 2, journal = [Populate, Pool RunPsycopgSelect 1000 100000], stdout = []\<rparr>) \<and>
   run_benchmark
      \<lparr>elapsed = (\<lambda>a. 1), store_down = (\<lambda>t. False), started = (\<lambda>f i. 0),
       invocation_fails = (\<lambda>f i. i = 7)\<rparr>
      \<lparr>clock = 0, journal = [], stdout = []\<rparr> =
   run_benchmark
      \<lparr>elapsed = (\<lambda>a. 1), store_down = (\<lambda>t. False), started = (\<lambda>f i. 0),
       invocation_fails = (\<lambda>f i. False)\<rparr>
      \<lparr>clock = 0, journal = [], stdout = []\<rparr>"
proof -
  let ?ok = "\<lparr>elapsed = (\<lambda>a. 1::rat), store_down = (\<lambda>t. False), started = (\<lambda>f i. 0),
              invocation_fails = (\<lambda>f i. False)\<rparr>"
  let ?bad = "\<lparr>elapsed = (\<lambda>a. 1::rat), store_down = (\<lambda>t. False), started = (\<lambda>f i. 0),
               invocation_fails = (\<lambda>f (i::nat). i = 7)\<rparr>"
  let ?w = "\<lparr>clock = 0, journal = [], stdout = []\<rparr>"
  have e: "?bad = ?ok\<lparr>invocation_fails := (\<lambda>f i. i = 7)\<rparr>" by simp
  have "fst (thread_pool ?bad RunPsycopgSelect 1000 100000 ?w) ! 7 = Raised OperationError"
    by (simp add: thread_pool_def submit_all_nth invoke_def table_columns_def)
  moreover have "fst (thread_pool ?ok RunPsycopgSelect 1000 100000 ?w) ! 7 = Returned"
    by (simp add: thread_pool_def submit_all_nth invoke_def table_columns_def)
  moreover have "run_psycopg_select ?bad ?w =
      (None, \<lparr>clock = 2, journal = [Populate, Pool RunPsycopgSelect 1000 100000], stdout = []\<rparr>)"
    by (simp add: run_psycopg_select_def populate_def perform_def thread_pool_def)
  moreover have "run_psycopg_select ?ok ?w =
      (None, \<lparr>clock = 2, journal = [Populate, Pool RunPsycopgSelect 1000 100000], stdout = []\<rparr>)"
    by (simp add: run_psycopg_select_def populate_def perform_def thread_pool_def)
  moreover have "run_benchmark ?bad w = run_benchmark ?ok w" for w
    by (simp only: e run_benchmark_ignores_failures)
  ultimately show ?thesis by blast
qed

text \<open>
  C5, amended. The batch of a thread pool leaves one future per submitted invocation, in
  the order of submission, each holding the outcome of its own invocation. An invocation
  that fails has raised: \<open>OperationError\<close> when it fails on its own, \<open>OperationalError\<close>
  when the store is unreachable at the time it runs. Whether an invocation fails changes
  no other future of the batch, so a failure does not halt the sibling invocations, and
  the pool returns with all the futures, the clock advanced by the time of the batch. The
  failure stays in that future, which the benchmark function drops: what the benchmark
  function, \<open>benchmark_worker\<close> and \<open>run_benchmark\<close> return, time and print is the same
  whichever invocations fail.
\<close>

theorem failed_invocation_isolated:
  "length (fst (thread_pool E f max_workers n w)) = n \<and>
   (i < n \<longrightarrow> fst (thread_pool E f max_workers n w) ! i = invoke E f (clock w) i) \<and>
   (invocation_fails E f i \<longrightarrow> (\<exists>e. invoke E f t i = Raised e)) \<and>
   (invocation_fails E f i \<and> \<not> store_down E (t + started E f i) \<and> f \<noteq> RunPsycopgUpdate \<longrightarrow>
      invoke E f t i = Raised OperationError) \<and>
   (store_down E (t + started E f i) \<longrightarrow> invoke E f t i = Raised OperationalError) \<and>
   (j < n \<and> j \<noteq> i \<longrightarrow>
      fst (thread_pool
             (E\<lparr>invocation_fails := (invocation_fails E)(f := (invocation_fails E f)(i := b))\<rparr>)
             f max_workers n w) ! j =
      fst (thread_pool E f max_workers n w) ! j) \<and>
   snd (thread_pool E f max_workers n w) =
     w\<lparr>clock := clock w + elapsed E (Pool f max_workers n),
       journal := journal w @ [Pool f max_workers n]\<rparr> \<and>
   call f (E\<lparr>invocation_fails := g\<rparr>) w = call f E w \<and>
   benchmark_worker (E\<lparr>invocation_fails := g\<rparr>) v w = benchmark_worker E v w \<and>
   run_benchmark (E\<lparr>invocation_fails := g\<rparr>) w = run_benchmark E w"
proof (intro conjI impI)
  show "length (fst (thread_pool E f max_workers n w)) = n"
    by (simp add: thread_pool_def submit_all_length)
  show "fst (thread_pool E f max_workers n w) ! i = invoke E f (clock w) i" if "i < n"
    using that by (simp add: thread_pool_def submit_all_nth)
  show "\<exists>e. invoke E f t i = Raised e" if "invocation_fails E f i"
    using that by (simp add: invoke_def)
  show "invoke E f t i = Raised OperationError"
    if "invocation_fails E f i \<and> \<not> store_down E (t + started E f i) \<and> f \<noteq> RunPsycopgUpdate"
    using that stmt_columns_known [of f] by (simp add: invoke_def)
  show "invoke E f t i = Raised OperationalError" if "store_down E (t + started E f i)"
    using that by (simp add: invoke_def)
  show "fst (thread_pool
             (E\<lparr>invocation_fails := (invocation_fails E)(f := (invocation_fails E f)(i := b))\<rparr>)
             f max_workers n w) ! j =
      fst (thread_pool E f max_workers n w) ! j" if "j < n \<and> j \<noteq> i"
    using that invoke_sibling [of j i E f b "clock w"]
    by (simp add: thread_pool_def submit_all_nth)
  show "snd (thread_pool E f max_workers n w) =
     w\<lparr>clock := clock w + elapsed E (Pool f max_workers n),
       journal := journal w @ [Pool f max_workers n]\<rparr>"
    by (simp add: thread_pool_def)
  show "call f (E\<lparr>invocation_fails := g\<rparr>) w = call f E w" by simp
  show "benchmark_worker (E\<lparr>invocation_fails := g\<rparr>) v w = benchmark_worker E v w" by simp
  show "run_benchmark (E\<lparr>invocation_fails := g\<rparr>) w = run_benchmark E w"
    by (rule run_benchmark_ignores_failures)
qed

theorem failed_invocation_isolated_witness:
  "(7::nat) < 100000 \<and> (8::nat) < 100000 \<and> (8::nat) \<noteq> 7 \<and>
   invocation_fails
     \<lparr>elapsed = (\<lambda>a. 1), store_down = (\<lambda>t. 5 \<le> t), started = (\<lambda>f i. if i = 9 then 5 else 0),
      invocation_fails = (\<lambda>f i. i = 7)\<rparr>
     RunPsycopgSelect 7 \<and>
   length (fst (thread_pool
     \<lparr>elapsed = (\<lambda>a. 1), store_down = (\<lambda>t. 5 \<le> t), started = (\<lambda>f i. if i = 9 then 5 else 0),
      invocation_fails = (\<lambda>f i. i = 7)\<rparr>
     RunPsycopgSelect 1000 100000 \<lparr>clock = 0, journal = [], stdout = []\<rparr>)) = 100000 \<and>
   fst (thread_pool
     \<lparr>elapsed = (\<lambda>a. 1), store_down = (\<lambda>t. 5 \<le> t), started = (\<lambda>f i. if i = 9 then 5 else 0),
      invocation_fails = (\<lambda>f i. i = 7)\<rparr>
     RunPsycopgSelect 1000 100000 \<lparr>clock = 0, journal = [], stdout = []\<rparr>) ! 7 =
     Raised OperationError \<and>
   fst (thread_pool
     \<lparr>elapsed = (\<lambda>a. 1), store_down = (\<lambda>t. 5 \<le> t), started = (\<lambda>f i. if i = 9 then 5 else 0),
      invocation_fails = (\<lambda>f i. i = 7)\<rparr>
     RunPsycopgSelect 1000 100000 \<lparr>clock = 0, journal = [], stdout = []\<rparr>) ! 8 = Returned \<and>
   store_down
     \<lparr>elapsed = (\<lambda>a. 1), store_down = (\<lambda>t. 5 \<le> t), started = (\<lambda>f i. if i = 9 then 5 else 0),
      invocation_fails = (\<lambda>f i. i = 7)\<rparr>
     (0 + started
        \<lparr>elapsed = (\<lambda>a. 1), store_down = (\<lambda>t. 5 \<le> t), started = (\<lambda>f i. if i = 9 then 5 else 0),
         invocation_fails = (\<lambda>f i. i = 7)\<rparr> RunPsycopgSelect 9) \<and>
   fst (thread_pool
     \<lparr>elapsed = (\<lambda>a. 1), store_down = (\<lambda>t. 5 \<le> t), started = (\<lambda>f i. if i = 9 then 5 else 0),
      invocation_fails = (\<lambda>f i. i = 7)\<rparr>
     RunPsycopgSelect 1000 100000 \<lparr>clock = 0, journal = [], stdout = []\<rparr>) ! 9 =
     Raised OperationalError"
proof -
  let ?E = "\<lparr>elapsed = (\<lambda>a. 1::rat), store_down = (\<lambda>t. 5 \<le> t),
             started = (\<lambda>f (i::nat). if i = 9 then 5 else (0::rat)),
             invocation_fails = (\<lambda>f (i::nat). i = 7)\<rparr>"
  let ?w = "\<lparr>clock = 0, journal = [], stdout = []\<rparr>"
  let ?fs = "fst (thread_pool ?E RunPsycopgSelect 1000 100000 ?w)"
  have f: "invocation_fails ?E RunPsycopgSelect 7" by simp
  have u: "\<not> store_down ?E (0 + started ?E RunPsycopgSelect 7)" by simp
  have d: "store_down ?E (0 + started ?E RunPsycopgSelect 9)" by simp
  from failed_invocation_isolated [of ?E RunPsycopgSelect 1000 100000 ?w 7 0 8 False] f u
  have 1: "length ?fs = 100000" and 2: "?fs ! 7 = invoke ?E RunPsycopgSelect (clock ?w) 7"
    and 3: "invoke ?E RunPsycopgSelect 0 7 = Raised OperationError"
    and 4: "fst (thread_pool
             (?E\<lparr>invocation_fails :=
                  (invocation_fails ?E)(RunPsycopgSelect := (invocation_fails ?E RunPsycopgSelect)(7 := False))\<rparr>)
             RunPsycopgSelect 1000 100000 ?w) ! 8 = ?fs ! 8"
    by simp_all
  from 4 have 5: "?fs ! 8 = Returned"
    by (simp add: thread_pool_def submit_all_nth invoke_def table_columns_def)
  from failed_invocation_isolated [of ?E RunPsycopgSelect 1000 100000 ?w 9 0] d
  have 6: "?fs ! 9 = invoke ?E RunPsycopgSelect (clock ?w) 9"
    and 7: "invoke ?E RunPsycopgSelect 0 9 = Raised OperationalError"
    by simp_all
  from 1 2 3 5 6 7 show ?thesis by simp
qed

section \<open>The runner as a whole\<close>

subsection \<open>An unreachable store\<close>

lemma perform_stdout: "stdout (snd (perform E a w)) = stdout w"
  by (simp add: perform_def)

lemma thread_pool_stdout: "stdout (snd (thread_pool E f c n w)) = stdout w"
  by (simp add: thread_pool_def)

lemma call_stdout: "stdout (snd (call f E w)) = stdout w"
  by (cases f)
     (simp_all add: run_sqlalchemy_select_def run_psycopg_select_def run_sqlalchemy_update_def
        run_psycopg_update_def run_sqlalchemy_add_all_def psycopg_executemany_def
        run_sqlalchemy_concurrent_add_def psycopg_concurrent_add_def populate_def
        perform_def thread_pool_def)

lemma call_value_stdout: "stdout (snd (call_value v E w)) = stdout w"
  by (simp add: call_value_def call_stdout split: pyval.splits)

lemma benchmark_worker_stdout: "stdout (snd (benchmark_worker E v w)) = stdout w"
proof -
  have "stdout (snd (call_value v E w3)) = stdout w3" for w3 by (rule call_value_stdout)
  then have c: "call_value v E w3 = (eo, w4) \<Longrightarrow> stdout w4 = stdout w3" for w3 eo w4
    by (metis snd_conv)
  show ?thesis
    by (auto simp: benchmark_worker_def perform_def perf_counter_def dest!: c
        split: prod.splits option.splits)
qed

lemma benchmark_each_Cons_cases:
  "benchmark_each E (r # rs) h w = res \<Longrightarrow>
   (\<exists>e. getitem (h r) ''func'' = Inl e \<and> res = (Some e, h, w)) \<or>
   (\<exists>v e w'. getitem (h r) ''func'' = Inr v \<and> benchmark_worker E v w = (Inl e, w') \<and>
      res = (Some e, h, w')) \<or>
   (\<exists>v t w'. getitem (h r) ''func'' = Inr v \<and> benchmark_worker E v w = (Inr t, w') \<and>
      res = benchmark_each E rs (h(r := (h r)(''duration'' \<mapsto> PyFloat t))) w')"
  by (auto split: sum.splits prod.splits)

lemma benchmark_each_stdout: "stdout (snd (snd (benchmark_each E rs h w))) = stdout w"
proof (induction rs arbitrary: h w)
  case Nil
  then show ?case by simp
next
  case (Cons r rs)
  have b: "benchmark_worker E v w = (x, w') \<Longrightarrow> stdout w' = stdout w" for v x w'
    using benchmark_worker_stdout [of E v w] by simp
  from benchmark_each_Cons_cases [OF refl, where E = E and r = r and rs = rs and h = h and w = w]
  show ?case
  proof (elim disjE exE conjE)
    fix e assume "benchmark_each E (r # rs) h w = (Some e, h, w)"
    then show ?thesis by simp
  next
    fix v e w'
    assume "benchmark_worker E v w = (Inl e, w')"
      "benchmark_each E (r # rs) h w = (Some e, h, w')"
    with b show ?thesis by simp
  next
    fix v t w'
    assume "benchmark_worker E v w = (Inr t, w')"
      "benchmark_each E (r # rs) h w =
         benchmark_each E rs (h(r := (h r)(''duration'' \<mapsto> PyFloat t))) w'"
    with b Cons.IH show ?thesis by simp
  qed
qed







lemma heap_of_nth: "r < length ds \<Longrightarrow> heap_of ds r = ds ! r"
  by (simp add: heap_of_def)

lemma map_heap_of: "map (heap_of ds) [0..<length ds] = ds"
  by (rule nth_equalityI) (simp_all add: heap_of_def)





subsection \<open>The catalog and the durations it is given\<close>

lemma getitem_Inr: "getitem x key = Inr v \<longleftrightarrow> x key = Some v"
  by (simp add: getitem_def split: option.splits)

lemma loop_None_ratio:
  "slowness_loop k idx rs h = (None, h') \<Longrightarrow> idx \<le> j \<Longrightarrow> j < idx + k \<Longrightarrow> odd j \<Longrightarrow>
   ratio rs h j \<noteq> None"
proof (induction k arbitrary: idx h)
  case 0
  then show ?case by simp
next
  case (Suc k)
  from Suc.prems(1) obtain h1 where st: "slowness_step rs idx h = Inr h1"
    by (cases "slowness_step rs idx h") simp_all
  with Suc.prems(1) have l: "slowness_loop k (Suc idx) rs h1 = (None, h')" by simp
  show ?case
  proof (cases "j = idx")
    case True
    with step_Inr_cases [OF st] Suc.prems(4) obtain p d s where
      "getitem (h (rs ! (j - 1))) ''duration'' = Inr p"
      "getitem (h (rs ! j)) ''duration'' = Inr d" "slowness_of d p = Inr s"
      by auto
    then show ?thesis
      by (auto simp: ratio_def getitem_Inr slowness_of_def split: sum.splits)
  next
    case False
    with Suc.prems have "Suc idx \<le> j" "j < Suc idx + k" by simp_all
    from Suc.IH [OF l this Suc.prems(4)] show ?thesis by (simp add: step_keeps_ratio [OF st])
  qed
qed

lemma compute_NoneD:
  assumes "compute_slowness rs h = (None, h')" "odd i" "i < length rs"
    "\<forall>j<length rs. i < j \<and> odd j \<longrightarrow> rs ! j \<noteq> rs ! i"
  shows "\<exists>p d s. getitem (h (rs ! (i - 1))) ''duration'' = Inr p \<and>
           getitem (h (rs ! i)) ''duration'' = Inr d \<and> slowness_of d p = Inr s \<and>
           h' (rs ! i) = (h (rs ! i))(''slowness'' \<mapsto> s)"
proof -
  from assms(1) have l: "slowness_loop (length rs) 0 rs h = (None, h')"
    by (simp add: compute_slowness_def)
  have a: "\<forall>j. 0 \<le> j \<and> j \<le> i \<and> odd j \<longrightarrow> ratio rs h j \<noteq> None"
    using loop_None_ratio [OF l] assms(3) by auto
  have b: "\<forall>j. i < j \<and> j < 0 + length rs \<and> odd j \<longrightarrow> rs ! j \<noteq> rs ! i"
    using assms(4) by simp
  from loop_sets [of 0 i "length rs" rs h, OF _ _ assms(2) a b] assms(3) l
  obtain r where r: "ratio rs h i = Some r"
    "h' (rs ! i) ''slowness'' = Some (PyStr (float_repr (float_round r 2) @ ''x''))"
    by auto
  from ratio_SomeD [OF r(1)] obtain d p where
    d: "getitem (h (rs ! i)) ''duration'' = Inr d"
       "getitem (h (rs ! (i - 1))) ''duration'' = Inr p"
       "slowness_of d p = Inr (PyStr (float_repr (float_round r 2) @ ''x''))"
    by blast
  have "h' (rs ! i) =
      (h (rs ! i))(''slowness'' \<mapsto> PyStr (float_repr (float_round r 2) @ ''x''))"
  proof (rule ext)
    fix key
    show "h' (rs ! i) key =
      ((h (rs ! i))(''slowness'' \<mapsto> PyStr (float_repr (float_round r 2) @ ''x''))) key"
      using r(2) loop_other_keys [OF l, of key "rs ! i"] by (cases "key = ''slowness''") simp_all
  qed
  with d show ?thesis by blast
qed

lemma benchmark_worker_InrD: "benchmark_worker E v w = (Inr t, w') \<Longrightarrow> \<exists>f. v = PyFunc f"
  by (auto simp: benchmark_worker_def call_value_def perform_def perf_counter_def
      split: prod.splits option.splits pyval.splits if_splits)

lemma benchmark_each_measured:
  "benchmark_each E rs h w = (None, h', w') \<Longrightarrow> distinct rs \<Longrightarrow>
   length (measured E (map h rs) w) = length rs \<and>
   (\<forall>j<length rs. h' (rs ! j) =
      (h (rs ! j))(''duration'' \<mapsto> PyFloat (measured E (map h rs) w ! j))) \<and>
   (\<forall>r. r \<notin> set rs \<longrightarrow> h' r = h r)"
proof (induction rs arbitrary: h w)
  case Nil
  then show ?case by simp
next
  case (Cons r rs)
  from benchmark_each_Cons_cases [OF Cons.prems(1)] obtain v t w1 where
    s: "getitem (h r) ''func'' = Inr v" "benchmark_worker E v w = (Inr t, w1)"
       "(None, h', w') = benchmark_each E rs (h(r := (h r)(''duration'' \<mapsto> PyFloat t))) w1"
    by auto
  define h2 where "h2 = h(r := (h r)(''duration'' \<mapsto> PyFloat t))"
  from s(3) have l: "benchmark_each E rs h2 w1 = (None, h', w')" by (simp add: h2_def)
  from benchmark_worker_InrD [OF s(2)] obtain f where v: "v = PyFunc f" ..
  with s(1) have fo: "func_of (h r) = Some f" by (simp add: func_of_def getitem_Inr)
  from Cons.prems(2) have nr: "r \<notin> set rs" and dr: "distinct rs" by simp_all
  from nr have m: "map h2 rs = map h rs" by (auto simp: h2_def)
  from fo s(2) v have me: "measured E (map h (r # rs)) w = t # measured E (map h rs) w1"
    by simp
  from Cons.IH [OF l dr, unfolded m]
  have len: "length (measured E (map h rs) w1) = length rs"
    and nth: "\<forall>j<length rs. h' (rs ! j) =
        (h2 (rs ! j))(''duration'' \<mapsto> PyFloat (measured E (map h rs) w1 ! j))"
    and out: "\<forall>r'. r' \<notin> set rs \<longrightarrow> h' r' = h2 r'"
    by blast+
  have 1: "length (measured E (map h (r # rs)) w) = length (r # rs)"
    unfolding me by (simp add: len)
  have 2: "h' ((r # rs) ! j) =
      (h ((r # rs) ! j))(''duration'' \<mapsto> PyFloat (measured E (map h (r # rs)) w ! j))"
    if "j < length (r # rs)" for j
  proof (cases j)
    case 0
    from out nr have "h' r = h2 r" by simp
    with 0 show ?thesis unfolding me by (simp add: h2_def)
  next
    case (Suc j')
    with that have j': "j' < length rs" by simp
    then have "rs ! j' \<noteq> r" using nr by auto
    then have "h2 (rs ! j') = h (rs ! j')" by (simp add: h2_def)
    with nth j' Suc show ?thesis unfolding me by simp
  qed
  have 3: "h' r' = h r'" if "r' \<notin> set (r # rs)" for r'
    using that out by (simp add: h2_def)
  from 1 2 3 show ?case by blast
qed

lemma slowness_of_floats:
  "slowness_of (PyFloat a) (PyFloat b) = Inr s \<Longrightarrow>
   \<exists>r. float_truediv a b = Inr r \<and> s = PyStr (float_repr (float_round r 2) @ ''x'')"
  by (auto simp: slowness_of_def truediv_def split: sum.splits)

lemma run_benchmark_rows:
  assumes "run_benchmark E w = (None, w')" "odd i" "i < length functions_list"
  shows "\<exists>data r. stdout w' = stdout w @ [tabulate data] \<and>
     length data = length functions_list \<and>
     float_truediv (measured E functions_list w ! i) (measured E functions_list w ! (i - 1)) = Inr r \<and>
     row_of ((functions_list ! i)
        (''duration'' \<mapsto> PyFloat (measured E functions_list w ! i),
         ''slowness'' \<mapsto> PyStr (float_repr (float_round r 2) @ ''x''))) = Inr (data ! i) \<and>
     row_of ((functions_list ! (i - 1))
        (''duration'' \<mapsto> PyFloat (measured E functions_list w ! (i - 1)))) = Inr (data ! (i - 1))"
proof -
  let ?ts = "measured E functions_list w"
  let ?rs = "[0..<length functions_list]"
  let ?h = "heap_of functions_list"
  obtain eo h1 w1 where b: "benchmark_each E ?rs ?h w = (eo, h1, w1)"
    by (cases "benchmark_each E ?rs ?h w")
  with assms(1) have n: "eo = None" by (cases eo) (simp_all add: run_benchmark_def)
  from benchmark_each_stdout [of E ?rs ?h w] b have so: "stdout w1 = stdout w" by simp
  from benchmark_each_measured [of E ?rs ?h w h1 w1] b n
  have nth': "\<forall>j<length ?rs. h1 (?rs ! j) =
      (?h (?rs ! j))(''duration'' \<mapsto> PyFloat (measured E (map ?h ?rs) w ! j))"
    by simp
  have nth: "h1 j = (functions_list ! j)(''duration'' \<mapsto> PyFloat (?ts ! j))"
    if "j < length functions_list" for j
    using that nth' by (simp add: map_heap_of heap_of_nth)
  obtain eo' h2 out' where p: "print_results ?rs h1 (stdout w1) = (eo', h2, out')"
    by (cases "print_results ?rs h1 (stdout w1)")
  with assms(1) b n have n': "eo' = None" and w': "w' = w1\<lparr>stdout := out'\<rparr>"
    by (simp_all add: run_benchmark_def)
  from print_results_NoneD [of ?rs h1 "stdout w1" h2 out'] p n' obtain data where
    d: "compute_slowness ?rs h1 = (None, h2)" "rows_of (map h2 ?rs) = Inr data"
       "out' = stdout w1 @ [tabulate data]"
    by blast
  from rows_of_Inr [OF d(2)] have len: "length data = length functions_list"
    and row: "\<forall>j<length functions_list. row_of (h2 j) = Inr (data ! j)"
    by simp_all
  from assms(2,3) have i1: "i - 1 < length functions_list" "even (i - 1)" by simp_all
  have "\<forall>j<length ?rs. i < j \<and> odd j \<longrightarrow> ?rs ! j \<noteq> ?rs ! i" using assms(3) by simp
  from compute_NoneD [OF d(1) assms(2) _ this] assms(3) i1(1) obtain p0 d0 s where
    s: "getitem (h1 (i - 1)) ''duration'' = Inr p0" "getitem (h1 i) ''duration'' = Inr d0"
       "slowness_of d0 p0 = Inr s" "h2 i = (h1 i)(''slowness'' \<mapsto> s)"
    by auto
  from s(1) nth [OF i1(1)] have p0: "p0 = PyFloat (?ts ! (i - 1))" by (simp add: getitem_def)
  from s(2) nth [OF assms(3)] have d0: "d0 = PyFloat (?ts ! i)" by (simp add: getitem_def)
  from s(3) p0 d0 obtain r where
    r: "float_truediv (?ts ! i) (?ts ! (i - 1)) = Inr r"
       "s = PyStr (float_repr (float_round r 2) @ ''x'')"
    using slowness_of_floats by blast
  have "\<forall>j<length ?rs. odd j \<longrightarrow> ?rs ! j \<noteq> i - 1" using i1(2) by auto
  from compute_untouched [OF this, of h1] d(1) have even_row: "h2 (i - 1) = h1 (i - 1)" by simp
  from row assms(3) have "row_of (h2 i) = Inr (data ! i)" by simp
  with s(4) r(2) nth [OF assms(3)]
  have row_i: "row_of ((functions_list ! i)
        (''duration'' \<mapsto> PyFloat (?ts ! i),
         ''slowness'' \<mapsto> PyStr (float_repr (float_round r 2) @ ''x''))) = Inr (data ! i)"
    by simp
  from row i1(1) have "row_of (h2 (i - 1)) = Inr (data ! (i - 1))" by simp
  with even_row nth [OF i1(1)]
  have row_p: "row_of ((functions_list ! (i - 1))
        (''duration'' \<mapsto> PyFloat (?ts ! (i - 1)))) = Inr (data ! (i - 1))"
    by simp
  from d(3) w' so have "stdout w' = stdout w @ [tabulate data]" by simp
  with len r(1) row_i row_p show ?thesis
    by (intro exI [of _ data] exI [of _ r]) simp
qed

lemma clock_readings:
  "float_of_rat 0 = Finite False 0 \<and>
   float_of_rat 2 = Finite False 2 \<and>
   float_of_rat 6 = Finite False 6 \<and>
   float_of_rat 8 = Finite False 8 \<and>
   float_of_rat 12 = Finite False 12 \<and>
   float_of_rat 14 = Finite False 14 \<and>
   float_of_rat 18 = Finite False 18 \<and>
   float_of_rat 20 = Finite False 20 \<and>
   float_of_rat 24 = Finite False 24"
  by code_simp

lemma clock_differences:
  "float_sub (Finite False 2) (Finite False 0) = Finite False 2 \<and>
   float_sub (Finite False 6) (Finite False 2) = Finite False 4 \<and>
   float_sub (Finite False 8) (Finite False 6) = Finite False 2 \<and>
   float_sub (Finite False 12) (Finite False 8) = Finite False 4 \<and>
   float_sub (Finite False 14) (Finite False 12) = Finite False 2 \<and>
   float_sub (Finite False 18) (Finite False 14) = Finite False 4 \<and>
   float_sub (Finite False 20) (Finite False 18) = Finite False 2 \<and>
   float_sub (Finite False 24) (Finite False 20) = Finite False 4"
  by code_simp

lemma example_run:
  "fst (run_benchmark
     \<lparr>elapsed = (\<lambda>a. case a of
                     Pool f c n \<Rightarrow> if client_of f = Psycopg then 2 else 4
                   | BulkInsert f n \<Rightarrow> if client_of f = Psycopg then 2 else 4
                   | _ \<Rightarrow> 0),
      store_down = (\<lambda>t. False), started = (\<lambda>f i. 0), invocation_fails = (\<lambda>f i. False)\<rparr>
     \<lparr>clock = 0, journal = [], stdout = []\<rparr>) = None \<and>
   stdout (snd (run_benchmark
     \<lparr>elapsed = (\<lambda>a. case a of
                     Pool f c n \<Rightarrow> if client_of f = Psycopg then 2 else 4
                   | BulkInsert f n \<Rightarrow> if client_of f = Psycopg then 2 else 4
                   | _ \<Rightarrow> 0),
      store_down = (\<lambda>t. False), started = (\<lambda>f i. 0), invocation_fails = (\<lambda>f i. False)\<rparr>
     \<lparr>clock = 0, journal = [], stdout = []\<rparr>)) =
   [tabulate
     [[PyStr ''Psycopg Concurrent Select'', PyFloat (Finite False 2), PyStr ''0''],
      [PyStr ''SQLAlchemy Concurrent Select'', PyFloat (Finite False 4), PyStr ''2.0x''],
      [PyStr ''Psycopg Concurrent update'', PyFloat (Finite False 2), PyStr ''0''],
      [PyStr ''SQLAlchemy Concurrent update'', PyFloat (Finite False 4), PyStr ''2.0x''],
      [PyStr ''Psycopg Batch Add'', PyFloat (Finite False 2), PyStr ''0''],
      [PyStr ''SQLAlchemy Batch Add'', PyFloat (Finite False 4), PyStr ''2.0x''],
      [PyStr ''Psycopg Concurrent Add'', PyFloat (Finite False 2), PyStr ''0''],
      [PyStr ''SQLAlchemy Concurrent Add'', PyFloat (Finite False 4), PyStr ''2.0x'']]]"
  by (simp add: run_benchmark_def functions_list_def entry_def getitem_def benchmark_worker_def
      call_value_def perform_def perf_counter_def populate_def thread_pool_def
      run_psycopg_select_def run_sqlalchemy_select_def run_psycopg_update_def
      run_sqlalchemy_update_def psycopg_executemany_def run_sqlalchemy_add_all_def
      psycopg_concurrent_add_def run_sqlalchemy_concurrent_add_def
      clock_readings clock_differences heap_of_def upt_rec
      print_results_def compute_slowness_def step_even step_odd slowness_of_4_2 row_of_def)

text \<open>
  C10. The catalog of \<open>run_benchmark\<close> has 8 entries, an even count; at every even index
  sits the Psycopg function of an operation and at the following odd index the SQLAlchemy
  function of the same operation. When \<open>run_benchmark\<close> returns, the report has 8 rows, and
  at every odd index \<open>i\<close> the row is entry \<open>i\<close> with the duration measured for it and the
  slowness made of that duration divided by the duration measured for entry \<open>i - 1\<close>: the
  SQLAlchemy duration divided by the Psycopg duration. The row at \<open>i - 1\<close> is entry \<open>i - 1\<close>
  with its measured duration.
\<close>

theorem catalog_pairs:
  "length functions_list = 8 \<and> even (length functions_list) \<and>
   map func_of functions_list =
     [Some RunPsycopgSelect, Some RunSqlalchemySelect,
      Some RunPsycopgUpdate, Some RunSqlalchemyUpdate,
      Some PsycopgExecutemany, Some RunSqlalchemyAddAll,
      Some PsycopgConcurrentAdd, Some RunSqlalchemyConcurrentAdd] \<and>
   map (map_option client_of \<circ> func_of) functions_list =
     [Some Psycopg, Some SQLAlchemy, Some Psycopg, Some SQLAlchemy,
      Some Psycopg, Some SQLAlchemy, Some Psycopg, Some SQLAlchemy] \<and>
   map (map_option operation_of \<circ> func_of) functions_list =
     [Some ConcurrentSelect, Some ConcurrentSelect, Some ConcurrentUpdate, Some ConcurrentUpdate,
      Some BatchAdd, Some BatchAdd, Some ConcurrentAdd, Some ConcurrentAdd] \<and>
   (run_benchmark E w = (None, w') \<and> odd i \<and> i < 8 \<longrightarrow>
      (\<exists>data r. stdout w' = stdout w @ [tabulate data] \<and> length data = 8 \<and>
         float_truediv (measured E functions_list w ! i)
                       (measured E functions_list w ! (i - 1)) = Inr r \<and>
         row_of ((functions_list ! i)
            (''duration'' \<mapsto> PyFloat (measured E functions_list w ! i),
             ''slowness'' \<mapsto> PyStr (float_repr (float_round r 2) @ ''x''))) = Inr (data ! i) \<and>
         row_of ((functions_list ! (i - 1))
            (''duration'' \<mapsto> PyFloat (measured E functions_list w ! (i - 1)))) =
           Inr (data ! (i - 1))))"
proof -
  have l: "length functions_list = 8" by (simp add: functions_list_def)
  have f: "map func_of functions_list =
     [Some RunPsycopgSelect, Some RunSqlalchemySelect,
      Some RunPsycopgUpdate, Some RunSqlalchemyUpdate,
      Some PsycopgExecutemany, Some RunSqlalchemyAddAll,
      Some PsycopgConcurrentAdd, Some RunSqlalchemyConcurrentAdd]"
    by (simp add: functions_list_def func_of_def entry_def)
  have c: "map (map_option client_of \<circ> func_of) functions_list =
     [Some Psycopg, Some SQLAlchemy, Some Psycopg, Some SQLAlchemy,
      Some Psycopg, Some SQLAlchemy, Some Psycopg, Some SQLAlchemy]"
    by (simp add: functions_list_def func_of_def entry_def)
  have ob: "map (map_option operation_of \<circ> func_of) functions_list =
     [Some ConcurrentSelect, Some ConcurrentSelect, Some ConcurrentUpdate, Some ConcurrentUpdate,
      Some BatchAdd, Some BatchAdd, Some ConcurrentAdd, Some ConcurrentAdd]"
    by (simp add: functions_list_def func_of_def entry_def)
  have r: "run_benchmark E w = (None, w') \<and> odd i \<and> i < 8 \<longrightarrow>
      (\<exists>data r. stdout w' = stdout w @ [tabulate data] \<and> length data = 8 \<and>
         float_truediv (measured E functions_list w ! i)
                       (measured E functions_list w ! (i - 1)) = Inr r \<and>
         row_of ((functions_list ! i)
            (''duration'' \<mapsto> PyFloat (measured E functions_list w ! i),
             ''slowness'' \<mapsto> PyStr (float_repr (float_round r 2) @ ''x''))) = Inr (data ! i) \<and>
         row_of ((functions_list ! (i - 1))
            (''duration'' \<mapsto> PyFloat (measured E functions_list w ! (i - 1)))) =
           Inr (data ! (i - 1)))"
    using run_benchmark_rows [of E w w' i] by (simp only: l) blast
  from l f c ob r show ?thesis by simp
qed

theorem catalog_pairs_witness:
  "fst (run_benchmark
     \<lparr>elapsed = (\<lambda>a. case a of
                     Pool f c n \<Rightarrow> if client_of f = Psycopg then 2 else 4
                   | BulkInsert f n \<Rightarrow> if client_of f = Psycopg then 2 else 4
                   | _ \<Rightarrow> 0),
      store_down = (\<lambda>t. False), started = (\<lambda>f i. 0), invocation_fails = (\<lambda>f i. False)\<rparr>
     \<lparr>clock = 0, journal = [], stdout = []\<rparr>) = None \<and>
   odd (1::nat) \<and> (1::nat) < 8 \<and>
   length (rows (hd (stdout (snd (run_benchmark
     \<lparr>elapsed = (\<lambda>a. case a of
                     Pool f c n \<Rightarrow> if client_of f = Psycopg then 2 else 4
                   | BulkInsert f n \<Rightarrow> if client_of f = Psycopg then 2 else 4
                   | _ \<Rightarrow> 0),
      store_down = (\<lambda>t. False), started = (\<lambda>f i. 0), invocation_fails = (\<lambda>f i. False)\<rparr>
     \<lparr>clock = 0, journal = [], stdout = []\<rparr>))))) = 8 \<and>
   rows (hd (stdout (snd (run_benchmark
     \<lparr>elapsed = (\<lambda>a. case a of
                     Pool f c n \<Rightarrow> if client_of f = Psycopg then 2 else 4
                   | BulkInsert f n \<Rightarrow> if client_of f = Psycopg then 2 else 4
                   | _ \<Rightarrow> 0),
      store_down = (\<lambda>t. False), started = (\<lambda>f i. 0), invocation_fails = (\<lambda>f i. False)\<rparr>
     \<lparr>clock = 0, journal = [], stdout = []\<rparr>)))) ! 1 =
     [PyStr ''SQLAlchemy Concurrent Select'', PyFloat (Finite False 4), PyStr ''2.0x'']"
proof -
  let ?E = "\<lparr>elapsed = (\<lambda>a. case a of
                     Pool f c n \<Rightarrow> if client_of f = Psycopg then 2 else (4::rat)
                   | BulkInsert f n \<Rightarrow> if client_of f = Psycopg then 2 else 4
                   | _ \<Rightarrow> 0),
      store_down = (\<lambda>t. False), started = (\<lambda>f i. 0), invocation_fails = (\<lambda>f i. False)\<rparr>"
  let ?w = "\<lparr>clock = 0, journal = [], stdout = []\<rparr>"
  obtain eo w' where r: "run_benchmark ?E ?w = (eo, w')" by (cases "run_benchmark ?E ?w")
  with example_run have n: "eo = None" by simp
  from catalog_pairs [of ?E ?w w' 1] r n
  obtain data where "stdout w' = stdout ?w @ [tabulate data]" "length data = 8" by auto
  then have "length (rows (hd (stdout w'))) = 8" by (simp add: tabulate_def)
  moreover from example_run r
  have "rows (hd (stdout w')) ! 1 =
     [PyStr ''SQLAlchemy Concurrent Select'', PyFloat (Finite False 4), PyStr ''2.0x'']"
    by (simp add: tabulate_def)
  ultimately show ?thesis using r n by simp
qed

end
